theory Spec2Isabelle
  imports Main "HOL-Library.Word" "HOL-Library.Finite_Map"
begin

section \<open>The aggregation worker of veneur (worker.go)\<close>

text \<open>
  The worker keeps five Go maps from a metric identity to a pointer to an accumulator.
  Go maps and the accumulators behind the pointers are reference objects, and \<open>Flush\<close>
  hands the map references of the current window to its caller. The embedding therefore
  keeps an explicit store: map objects and accumulator objects live at addresses, the
  \<open>WorkerMetrics\<close> struct holds five addresses of map objects, and a map object sends a
  key to the address of an accumulator object.

  The three operations \<open>ProcessMetric\<close>, \<open>ImportMetric\<close> and \<open>Flush\<close> run under the
  worker's mutex, so each is one atomic state transformer here.
\<close>

subsection \<open>Scalars\<close>

text \<open>
  The worker never computes with a floating-point number, it only hands it on to an
  accumulator or to the statistics client. A float is carried as its IEEE 754 bit
  pattern.
\<close>

type_synonym int64 = "64 word"
type_synonym float64 = "64 word"
type_synonym float32 = "32 word"
type_synonym byte = "8 word"
type_synonym addr = nat

definition f64_one :: float64 where
  "f64_one = 0x3FF0000000000000"

definition f64_half :: float64 where
  "f64_half = 0x3FE0000000000000"

definition f32_one :: float32 where
  "f32_one = 0x3F800000"

text \<open>A value of type \<open>interface{}\<close>: its dynamic type and the value of that type.\<close>

datatype interface = Float64 float64 | String string | OtherDynamic

text \<open>The run-time panics the worker's own statements can raise.\<close>

datatype panic = TypeAssertion | NilDereference | CloseOfClosedChannel

subsection \<open>Metric identity and samples\<close>

text \<open>
  Modelled from the spec: the declarations of \<open>MetricKey\<close>, \<open>UDPMetric\<close> and \<open>JSONMetric\<close>
  are not part of worker.go. The spec (section 3) composes the identity of name, type and
  tag-set fingerprint; a sample carries the identity, tags, a value and a sample rate;
  an imported sample carries the identity, tags and an encoded accumulator state.
  worker.go reads \<open>m.Name\<close>, \<open>m.Type\<close> and \<open>m.MetricKey\<close> of one sample: name and type are
  the promoted fields of the embedded identity.
\<close>

record MetricKey =
  Name :: string
  Type :: string
  JoinedTags :: string

record UDPMetric =
  MetricKey :: MetricKey
  Value :: interface
  SampleRate :: float32
  Tags :: "string list"

record JSONMetric =
  MetricKey_J :: MetricKey
  Tags_J :: "string list"
  Value_J :: "byte list"

subsection \<open>Accumulators\<close>

text \<open>
  \<open>Counter\<close>, \<open>Gauge\<close>, \<open>Histo\<close> and \<open>Set\<close> with their constructors and methods are declared
  outside worker.go. They are parameters of the embedding: the four object types are type
  variables and the operations are the fields of one record. A method with a pointer
  receiver is a function from the object's state to its new state; \<open>Combine\<close> also returns
  its \<open>error\<close> (\<open>None\<close> for \<open>nil\<close>, otherwise the error's text). This takes the methods to
  return, and to read and write no object but their receiver.
\<close>

record ('c, 'g, 'h, 's) samplers =
  NewCounter :: "string \<Rightarrow> string list \<Rightarrow> 'c"
  Counter_Sample :: "'c \<Rightarrow> float64 \<Rightarrow> float32 \<Rightarrow> 'c"
  NewGauge :: "string \<Rightarrow> string list \<Rightarrow> 'g"
  Gauge_Sample :: "'g \<Rightarrow> float64 \<Rightarrow> float32 \<Rightarrow> 'g"
  NewHist :: "string \<Rightarrow> string list \<Rightarrow> 'h"
  Histo_Sample :: "'h \<Rightarrow> float64 \<Rightarrow> float32 \<Rightarrow> 'h"
  NewSet :: "string \<Rightarrow> string list \<Rightarrow> 's"
  Set_Sample :: "'s \<Rightarrow> string \<Rightarrow> float32 \<Rightarrow> 's"
  Set_Combine :: "'s \<Rightarrow> byte list \<Rightarrow> 's \<times> string option"

subsection \<open>The store\<close>

record ('c, 'g, 'h, 's) heap =
  next_addr :: addr
  map_objs :: "addr \<Rightarrow> (MetricKey, addr) fmap"
  Counter_objs :: "addr \<Rightarrow> 'c"
  Gauge_objs :: "addr \<Rightarrow> 'g"
  Histo_objs :: "addr \<Rightarrow> 'h"
  Set_objs :: "addr \<Rightarrow> 's"

text \<open>\<open>make(map[MetricKey]*T)\<close>: a new, empty map object at the next free address.\<close>

definition make_map :: "('c, 'g, 'h, 's) heap \<Rightarrow> addr \<times> ('c, 'g, 'h, 's) heap" where
  "make_map h =
     (next_addr h,
      h\<lparr>next_addr := Suc (next_addr h),
        map_objs := (map_objs h)(next_addr h := fmempty)\<rparr>)"

text \<open>\<open>mp[k] = p\<close> on the map object at address \<open>a\<close>.\<close>

definition map_assign ::
  "('c, 'g, 'h, 's) heap \<Rightarrow> addr \<Rightarrow> MetricKey \<Rightarrow> addr \<Rightarrow> ('c, 'g, 'h, 's) heap" where
  "map_assign h a k p = h\<lparr>map_objs := (map_objs h)(a := fmupd k p (map_objs h a))\<rparr>"

text \<open>\<open>mp[k]\<close>: \<open>None\<close> is the nil pointer Go returns for a key that is not present.\<close>

definition map_index ::
  "('c, 'g, 'h, 's) heap \<Rightarrow> addr \<Rightarrow> MetricKey \<Rightarrow> addr option" where
  "map_index h a k = fmlookup (map_objs h a) k"

text \<open>A constructor returns a pointer to a new object holding the given state.\<close>

definition new_Counter :: "('c, 'g, 'h, 's) heap \<Rightarrow> 'c \<Rightarrow> addr \<times> ('c, 'g, 'h, 's) heap" where
  "new_Counter h c =
     (next_addr h,
      h\<lparr>next_addr := Suc (next_addr h),
        Counter_objs := (Counter_objs h)(next_addr h := c)\<rparr>)"

definition new_Gauge :: "('c, 'g, 'h, 's) heap \<Rightarrow> 'g \<Rightarrow> addr \<times> ('c, 'g, 'h, 's) heap" where
  "new_Gauge h g =
     (next_addr h,
      h\<lparr>next_addr := Suc (next_addr h),
        Gauge_objs := (Gauge_objs h)(next_addr h := g)\<rparr>)"

definition new_Histo :: "('c, 'g, 'h, 's) heap \<Rightarrow> 'h \<Rightarrow> addr \<times> ('c, 'g, 'h, 's) heap" where
  "new_Histo h x =
     (next_addr h,
      h\<lparr>next_addr := Suc (next_addr h),
        Histo_objs := (Histo_objs h)(next_addr h := x)\<rparr>)"

definition new_Set :: "('c, 'g, 'h, 's) heap \<Rightarrow> 's \<Rightarrow> addr \<times> ('c, 'g, 'h, 's) heap" where
  "new_Set h s =
     (next_addr h,
      h\<lparr>next_addr := Suc (next_addr h),
        Set_objs := (Set_objs h)(next_addr h := s)\<rparr>)"

subsection \<open>Side channels: the logger and the statistics client\<close>

datatype level = DebugLevel | ErrorLevel

datatype field = FieldString string string | FieldInt string int | FieldError string

datatype log_entry = Entry level field string

datatype stat =
    TimeInMilliseconds string float64 "string list" float64
  | Count string int64 "string list" float64

subsection \<open>Worker and WorkerMetrics\<close>

record WorkerMetrics =
  counters :: addr
  gauges :: addr
  histograms :: addr
  sets :: addr
  timers :: addr

text \<open>
  \<open>WorkChan\<close> is an unbuffered channel: its state is the list of values that blocked
  senders offer, oldest first. \<open>QuitChan\<close> only ever gets closed: its state is whether it
  has been. \<open>stats\<close> and \<open>logger\<close> point to clients outside the worker; what the worker
  sends them is recorded in call order.
\<close>

record Worker =
  id_w :: int
  WorkChan :: "UDPMetric list"
  QuitChan :: bool
  processed :: int64
  imported :: int64
  stats :: "stat list"
  logger :: "log_entry list"
  wm :: WorkerMetrics

record ('c, 'g, 'h, 's) state =
  worker :: Worker
  heap :: "('c, 'g, 'h, 's) heap"

definition log_entry_to :: "('c, 'g, 'h, 's) state \<Rightarrow> log_entry \<Rightarrow> ('c, 'g, 'h, 's) state" where
  "log_entry_to st e = st\<lparr>worker := (worker st)\<lparr>logger := logger (worker st) @ [e]\<rparr>\<rparr>"

definition NewWorkerMetrics ::
  "('c, 'g, 'h, 's) heap \<Rightarrow> WorkerMetrics \<times> ('c, 'g, 'h, 's) heap" where
  "NewWorkerMetrics h0 =
     (let (c, h1) = make_map h0;
          (g, h2) = make_map h1;
          (hi, h3) = make_map h2;
          (s, h4) = make_map h3;
          (t, h5) = make_map h4
      in (\<lparr>counters = c, gauges = g, histograms = hi, sets = s, timers = t\<rparr>, h5))"

definition NewWorker :: "('c, 'g, 'h, 's) heap \<Rightarrow> int \<Rightarrow> ('c, 'g, 'h, 's) state" where
  "NewWorker h0 i =
     (let (m, h1) = NewWorkerMetrics h0
      in \<lparr>worker = \<lparr>id_w = i, WorkChan = [], QuitChan = False, processed = 0, imported = 0,
                    stats = [], logger = [], wm = m\<rparr>,
          heap = h1\<rparr>)"

subsection \<open>ProcessMetric\<close>

text \<open>
  The bodies of the five cases of the switch, one definition each. In
  \<open>w.wm.counters[k].Sample(m.Value.(float64), m.SampleRate)\<close> Go evaluates the receiver
  (a map index, nil for a missing key), then the arguments (the type assertion panics
  on a value of another dynamic type), then calls the method, which dereferences the
  receiver. A panic leaves the worker as it is at that point.
\<close>

type_synonym ('c, 'g, 'h, 's) outcome =
  "(panic \<times> ('c, 'g, 'h, 's) state) + ('c, 'g, 'h, 's) state"

definition case_counter ::
  "('c, 'g, 'h, 's) samplers \<Rightarrow> ('c, 'g, 'h, 's) state \<Rightarrow> UDPMetric \<Rightarrow> ('c, 'g, 'h, 's) outcome" where
  "case_counter ops st m =
     (let mp = counters (wm (worker st));
          k = MetricKey m;
          st1 = (if map_index (heap st) mp k = None
                 then let st' = log_entry_to st
                                  (Entry DebugLevel (FieldString ''name'' (Name k)) ''New counter'');
                          (p, h') = new_Counter (heap st') (NewCounter ops (Name k) (Tags m))
                      in st'\<lparr>heap := map_assign h' mp k p\<rparr>
                 else st)
      in case Value m of
           Float64 v \<Rightarrow>
             (case map_index (heap st1) mp k of
                None \<Rightarrow> Inl (NilDereference, st1)
              | Some p \<Rightarrow>
                  Inr (st1\<lparr>heap := (heap st1)\<lparr>Counter_objs := (Counter_objs (heap st1))
                         (p := Counter_Sample ops (Counter_objs (heap st1) p) v (SampleRate m))\<rparr>\<rparr>))
         | _ \<Rightarrow> Inl (TypeAssertion, st1))"

definition case_gauge ::
  "('c, 'g, 'h, 's) samplers \<Rightarrow> ('c, 'g, 'h, 's) state \<Rightarrow> UDPMetric \<Rightarrow> ('c, 'g, 'h, 's) outcome" where
  "case_gauge ops st m =
     (let mp = gauges (wm (worker st));
          k = MetricKey m;
          st1 = (if map_index (heap st) mp k = None
                 then let st' = log_entry_to st
                                  (Entry DebugLevel (FieldString ''name'' (Name k)) ''New gauge'');
                          (p, h') = new_Gauge (heap st') (NewGauge ops (Name k) (Tags m))
                      in st'\<lparr>heap := map_assign h' mp k p\<rparr>
                 else st)
      in case Value m of
           Float64 v \<Rightarrow>
             (case map_index (heap st1) mp k of
                None \<Rightarrow> Inl (NilDereference, st1)
              | Some p \<Rightarrow>
                  Inr (st1\<lparr>heap := (heap st1)\<lparr>Gauge_objs := (Gauge_objs (heap st1))
                         (p := Gauge_Sample ops (Gauge_objs (heap st1) p) v (SampleRate m))\<rparr>\<rparr>))
         | _ \<Rightarrow> Inl (TypeAssertion, st1))"

definition case_histogram ::
  "('c, 'g, 'h, 's) samplers \<Rightarrow> ('c, 'g, 'h, 's) state \<Rightarrow> UDPMetric \<Rightarrow> ('c, 'g, 'h, 's) outcome" where
  "case_histogram ops st m =
     (let mp = histograms (wm (worker st));
          k = MetricKey m;
          st1 = (if map_index (heap st) mp k = None
                 then let st' = log_entry_to st
                                  (Entry DebugLevel (FieldString ''name'' (Name k)) ''New histogram'');
                          (p, h') = new_Histo (heap st') (NewHist ops (Name k) (Tags m))
                      in st'\<lparr>heap := map_assign h' mp k p\<rparr>
                 else st)
      in case Value m of
           Float64 v \<Rightarrow>
             (case map_index (heap st1) mp k of
                None \<Rightarrow> Inl (NilDereference, st1)
              | Some p \<Rightarrow>
                  Inr (st1\<lparr>heap := (heap st1)\<lparr>Histo_objs := (Histo_objs (heap st1))
                         (p := Histo_Sample ops (Histo_objs (heap st1) p) v (SampleRate m))\<rparr>\<rparr>))
         | _ \<Rightarrow> Inl (TypeAssertion, st1))"

definition case_set ::
  "('c, 'g, 'h, 's) samplers \<Rightarrow> ('c, 'g, 'h, 's) state \<Rightarrow> UDPMetric \<Rightarrow> ('c, 'g, 'h, 's) outcome" where
  "case_set ops st m =
     (let mp = sets (wm (worker st));
          k = MetricKey m;
          st1 = (if map_index (heap st) mp k = None
                 then let st' = log_entry_to st
                                  (Entry DebugLevel (FieldString ''name'' (Name k)) ''New set'');
                          (p, h') = new_Set (heap st') (NewSet ops (Name k) (Tags m))
                      in st'\<lparr>heap := map_assign h' mp k p\<rparr>
                 else st)
      in case Value m of
           String v \<Rightarrow>
             (case map_index (heap st1) mp k of
                None \<Rightarrow> Inl (NilDereference, st1)
              | Some p \<Rightarrow>
                  Inr (st1\<lparr>heap := (heap st1)\<lparr>Set_objs := (Set_objs (heap st1))
                         (p := Set_Sample ops (Set_objs (heap st1) p) v (SampleRate m))\<rparr>\<rparr>))
         | _ \<Rightarrow> Inl (TypeAssertion, st1))"

definition case_timer ::
  "('c, 'g, 'h, 's) samplers \<Rightarrow> ('c, 'g, 'h, 's) state \<Rightarrow> UDPMetric \<Rightarrow> ('c, 'g, 'h, 's) outcome" where
  "case_timer ops st m =
     (let mp = timers (wm (worker st));
          k = MetricKey m;
          st1 = (if map_index (heap st) mp k = None
                 then let st' = log_entry_to st
                                  (Entry DebugLevel (FieldString ''name'' (Name k)) ''New timer'');
                          (p, h') = new_Histo (heap st') (NewHist ops (Name k) (Tags m))
                      in st'\<lparr>heap := map_assign h' mp k p\<rparr>
                 else st)
      in case Value m of
           Float64 v \<Rightarrow>
             (case map_index (heap st1) mp k of
                None \<Rightarrow> Inl (NilDereference, st1)
              | Some p \<Rightarrow>
                  Inr (st1\<lparr>heap := (heap st1)\<lparr>Histo_objs := (Histo_objs (heap st1))
                         (p := Histo_Sample ops (Histo_objs (heap st1) p) v (SampleRate m))\<rparr>\<rparr>))
         | _ \<Rightarrow> Inl (TypeAssertion, st1))"

definition ProcessMetric ::
  "('c, 'g, 'h, 's) samplers \<Rightarrow> ('c, 'g, 'h, 's) state \<Rightarrow> UDPMetric \<Rightarrow> ('c, 'g, 'h, 's) outcome" where
  "ProcessMetric ops st0 m =
     (let st = st0\<lparr>worker := (worker st0)\<lparr>processed := processed (worker st0) + 1\<rparr>\<rparr>;
          t = Type (MetricKey m)
      in if t = ''counter'' then case_counter ops st m
         else if t = ''gauge'' then case_gauge ops st m
         else if t = ''histogram'' then case_histogram ops st m
         else if t = ''set'' then case_set ops st m
         else if t = ''timer'' then case_timer ops st m
         else Inr (log_entry_to st
                (Entry ErrorLevel (FieldString ''type'' t) ''Unknown metric type for processing'')))"

subsection \<open>ImportMetric\<close>

definition import_set ::
  "('c, 'g, 'h, 's) samplers \<Rightarrow> ('c, 'g, 'h, 's) state \<Rightarrow> JSONMetric \<Rightarrow> ('c, 'g, 'h, 's) outcome" where
  "import_set ops st other =
     (let mp = sets (wm (worker st));
          k = MetricKey_J other;
          st1 = (if map_index (heap st) mp k = None
                 then let st' = log_entry_to st
                                  (Entry DebugLevel (FieldString ''name'' (Name k)) ''New set'');
                          (p, h') = new_Set (heap st') (NewSet ops (Name k) (Tags_J other))
                      in st'\<lparr>heap := map_assign h' mp k p\<rparr>
                 else st)
      in case map_index (heap st1) mp k of
           None \<Rightarrow> Inl (NilDereference, st1)
         | Some p \<Rightarrow>
             (let (s', err) = Set_Combine ops (Set_objs (heap st1) p) (Value_J other);
                  st2 = st1\<lparr>heap := (heap st1)\<lparr>Set_objs := (Set_objs (heap st1))(p := s')\<rparr>\<rparr>
              in case err of
                   None \<Rightarrow> Inr st2
                 | Some e \<Rightarrow>
                     Inr (log_entry_to st2 (Entry ErrorLevel (FieldError e) ''Could not merge sets''))))"

definition ImportMetric ::
  "('c, 'g, 'h, 's) samplers \<Rightarrow> ('c, 'g, 'h, 's) state \<Rightarrow> JSONMetric \<Rightarrow> ('c, 'g, 'h, 's) outcome" where
  "ImportMetric ops st0 other =
     (let st = st0\<lparr>worker := (worker st0)\<lparr>imported := imported (worker st0) + 1\<rparr>\<rparr>;
          t = Type (MetricKey_J other)
      in if t = ''set'' then import_set ops st other
         else Inr (log_entry_to st
                (Entry ErrorLevel (FieldString ''type'' t) ''Unknown metric type for importing'')))"

subsection \<open>Flush\<close>

text \<open>\<open>fmt.Sprintf("%d", i)\<close>: the decimal digits, with a minus sign for a negative number.\<close>

fun decimal :: "nat \<Rightarrow> string" where
  "decimal n =
     (if n < 10 then [char_of (48 + n)]
      else decimal (n div 10) @ [char_of (48 + n mod 10)])"

definition Sprintf_d :: "int \<Rightarrow> string" where
  "Sprintf_d i = (if i < 0 then CHR ''-'' # decimal (nat (- i)) else decimal (nat i))"

text \<open>\<open>int64(len(mp))\<close> of the map object at an address.\<close>

definition len_map :: "('c, 'g, 'h, 's) heap \<Rightarrow> addr \<Rightarrow> int64" where
  "len_map h a = of_nat (fcard (fmdom (map_objs h a)))"

text \<open>
  \<open>Flush\<close> reads the clock twice; \<open>elapsed\<close> is the value of
  \<open>float64(time.Now().Sub(start).Nanoseconds())\<close>, which the environment decides.
  The result is the returned \<open>WorkerMetrics\<close> value and the state after the call.
\<close>

definition Flush ::
  "('c, 'g, 'h, 's) state \<Rightarrow> float64 \<Rightarrow> WorkerMetrics \<times> ('c, 'g, 'h, 's) state" where
  "Flush st elapsed =
     (let ret = wm (worker st);
          processed' = processed (worker st);
          imported' = imported (worker st);
          (fresh, h') = NewWorkerMetrics (heap st);
          worker_tag = ''worker:'' @ Sprintf_d (id_w (worker st));
          out =
            [TimeInMilliseconds ''flush.worker_duration_ns'' elapsed [] f64_one,
             Count ''worker.metrics_processed_total'' processed' [worker_tag] f64_one,
             Count ''worker.metrics_imported_total'' imported' [worker_tag] f64_one,
             Count ''worker.metrics_flushed_total'' (len_map h' (counters ret))
               [''metric_type:counter''] f64_one,
             Count ''worker.metrics_flushed_total'' (len_map h' (gauges ret))
               [''metric_type:gauge''] f64_one,
             Count ''worker.metrics_flushed_total'' (len_map h' (histograms ret))
               [''metric_type:histogram''] f64_one,
             Count ''worker.metrics_flushed_total'' (len_map h' (sets ret))
               [''metric_type:set''] f64_one,
             Count ''worker.metrics_flushed_total'' (len_map h' (timers ret))
               [''metric_type:timer''] f64_one]
      in (ret,
          st\<lparr>worker := (worker st)\<lparr>wm := fresh, processed := 0, imported := 0,
                                    stats := stats (worker st) @ out\<rparr>,
             heap := h'\<rparr>))"

subsection \<open>Stop and the dispatch loop\<close>

text \<open>\<open>close\<close> of a channel that is closed already panics.\<close>

definition Stop :: "('c, 'g, 'h, 's) state \<Rightarrow> ('c, 'g, 'h, 's) outcome" where
  "Stop st =
     (if QuitChan (worker st) then Inl (CloseOfClosedChannel, st)
      else Inr (st\<lparr>worker := (worker st)\<lparr>QuitChan := True\<rparr>\<rparr>))"

text \<open>
  One iteration of the loop of \<open>Work\<close>. The \<open>select\<close> statement has two receive cases and
  no default: it blocks until one can proceed, and when both can, Go chooses one of them
  by a random draw. A receive on \<open>WorkChan\<close> can proceed when a sender offers a value; a
  receive on \<open>QuitChan\<close> can proceed once the channel is closed. The iteration is a
  relation: each rule is one case whose communication can proceed.
\<close>

datatype ('c, 'g, 'h, 's) loop =
    Running "('c, 'g, 'h, 's) state"
  | Returned "('c, 'g, 'h, 's) state"
  | Panicked panic "('c, 'g, 'h, 's) state"

definition receive_work :: "('c, 'g, 'h, 's) state \<Rightarrow> ('c, 'g, 'h, 's) state" where
  "receive_work st = st\<lparr>worker := (worker st)\<lparr>WorkChan := tl (WorkChan (worker st))\<rparr>\<rparr>"

inductive Work_step ::
  "('c, 'g, 'h, 's) samplers \<Rightarrow> ('c, 'g, 'h, 's) loop \<Rightarrow> ('c, 'g, 'h, 's) loop \<Rightarrow> bool"
  for ops :: "('c, 'g, 'h, 's) samplers" where
  work: "WorkChan (worker st) = m # ms \<Longrightarrow>
         ProcessMetric ops (receive_work st) m = Inr st' \<Longrightarrow>
         Work_step ops (Running st) (Running st')"
| work_panic: "WorkChan (worker st) = m # ms \<Longrightarrow>
         ProcessMetric ops (receive_work st) m = Inl (p, st') \<Longrightarrow>
         Work_step ops (Running st) (Panicked p st')"
| quit: "QuitChan (worker st) \<Longrightarrow>
         Work_step ops (Running st)
           (Returned (log_entry_to st
              (Entry ErrorLevel (FieldInt ''worker'' (id_w (worker st))) ''Stopping'')))"

code_pred Work_step .

subsection \<open>Sequences of calls\<close>

text \<open>A panic ends the program: the calls after it are not made.\<close>

fun ProcessMetrics ::
  "('c, 'g, 'h, 's) samplers \<Rightarrow> ('c, 'g, 'h, 's) state \<Rightarrow> UDPMetric list \<Rightarrow> ('c, 'g, 'h, 's) outcome" where
  "ProcessMetrics ops st [] = Inr st"
| "ProcessMetrics ops st (m # ms) =
     (case ProcessMetric ops st m of
        Inl e \<Rightarrow> Inl e
      | Inr st' \<Rightarrow> ProcessMetrics ops st' ms)"

datatype call = Process UDPMetric | Import JSONMetric | FlushCall float64

fun do_call ::
  "('c, 'g, 'h, 's) samplers \<Rightarrow> ('c, 'g, 'h, 's) state \<Rightarrow> call \<Rightarrow> ('c, 'g, 'h, 's) outcome" where
  "do_call ops st (Process m) = ProcessMetric ops st m"
| "do_call ops st (Import j) = ImportMetric ops st j"
| "do_call ops st (FlushCall elapsed) = Inr (snd (Flush st elapsed))"

fun do_calls ::
  "('c, 'g, 'h, 's) samplers \<Rightarrow> ('c, 'g, 'h, 's) state \<Rightarrow> call list \<Rightarrow> ('c, 'g, 'h, 's) outcome" where
  "do_calls ops st [] = Inr st"
| "do_calls ops st (c # cs) =
     (case do_call ops st c of
        Inl e \<Rightarrow> Inl e
      | Inr st' \<Rightarrow> do_calls ops st' cs)"

text \<open>The worker as a call leaves it, whether the call returned or panicked.\<close>

definition state_after :: "('c, 'g, 'h, 's) outcome \<Rightarrow> ('c, 'g, 'h, 's) state" where
  "state_after r = (case r of Inl (p, st) \<Rightarrow> st | Inr st \<Rightarrow> st)"

text \<open>A call returned, it did not panic.\<close>

definition returned :: "('c, 'g, 'h, 's) outcome \<Rightarrow> bool" where
  "returned r = (case r of Inl e \<Rightarrow> False | Inr st \<Rightarrow> True)"

subsection \<open>Reading a snapshot\<close>

text \<open>
  What a \<open>WorkerMetrics\<close> value gives access to in a store: for each of its five maps, the
  accumulator behind the pointer stored for a key.
\<close>

definition Counter_at ::
  "('c, 'g, 'h, 's) heap \<Rightarrow> WorkerMetrics \<Rightarrow> MetricKey \<Rightarrow> 'c option" where
  "Counter_at h x k = map_option (Counter_objs h) (map_index h (counters x) k)"

definition Gauge_at ::
  "('c, 'g, 'h, 's) heap \<Rightarrow> WorkerMetrics \<Rightarrow> MetricKey \<Rightarrow> 'g option" where
  "Gauge_at h x k = map_option (Gauge_objs h) (map_index h (gauges x) k)"

definition Histogram_at ::
  "('c, 'g, 'h, 's) heap \<Rightarrow> WorkerMetrics \<Rightarrow> MetricKey \<Rightarrow> 'h option" where
  "Histogram_at h x k = map_option (Histo_objs h) (map_index h (histograms x) k)"

definition Set_at ::
  "('c, 'g, 'h, 's) heap \<Rightarrow> WorkerMetrics \<Rightarrow> MetricKey \<Rightarrow> 's option" where
  "Set_at h x k = map_option (Set_objs h) (map_index h (sets x) k)"

definition Timer_at ::
  "('c, 'g, 'h, 's) heap \<Rightarrow> WorkerMetrics \<Rightarrow> MetricKey \<Rightarrow> 'h option" where
  "Timer_at h x k = map_option (Histo_objs h) (map_index h (timers x) k)"

text \<open>
  The accumulator of an identity: the identity names its type, and the type names the map.
\<close>

datatype ('c, 'g, 'h, 's) accumulator = ACounter 'c | AGauge 'g | AHisto 'h | ASet 's

definition accumulator_at ::
  "('c, 'g, 'h, 's) heap \<Rightarrow> WorkerMetrics \<Rightarrow> MetricKey \<Rightarrow> ('c, 'g, 'h, 's) accumulator option" where
  "accumulator_at h x k =
     (if Type k = ''counter'' then map_option ACounter (Counter_at h x k)
      else if Type k = ''gauge'' then map_option AGauge (Gauge_at h x k)
      else if Type k = ''histogram'' then map_option AHisto (Histogram_at h x k)
      else if Type k = ''set'' then map_option ASet (Set_at h x k)
      else if Type k = ''timer'' then map_option AHisto (Timer_at h x k)
      else None)"

text \<open>The pointer stored for an identity, in the map its type names.\<close>

definition pointer_at ::
  "('c, 'g, 'h, 's) heap \<Rightarrow> WorkerMetrics \<Rightarrow> MetricKey \<Rightarrow> addr option" where
  "pointer_at h x k =
     (if Type k = ''counter'' then map_index h (counters x) k
      else if Type k = ''gauge'' then map_index h (gauges x) k
      else if Type k = ''histogram'' then map_index h (histograms x) k
      else if Type k = ''set'' then map_index h (sets x) k
      else if Type k = ''timer'' then map_index h (timers x) k
      else None)"

text \<open>The five maps of a snapshot are all empty.\<close>

definition all_empty :: "('c, 'g, 'h, 's) heap \<Rightarrow> WorkerMetrics \<Rightarrow> bool" where
  "all_empty h x \<longleftrightarrow>
     map_objs h (counters x) = fmempty \<and> map_objs h (gauges x) = fmempty \<and>
     map_objs h (histograms x) = fmempty \<and> map_objs h (sets x) = fmempty \<and>
     map_objs h (timers x) = fmempty"

text \<open>
  The addresses a snapshot refers to: its five map objects and every pointer stored in
  them.
\<close>

definition reach :: "('c, 'g, 'h, 's) heap \<Rightarrow> WorkerMetrics \<Rightarrow> addr set" where
  "reach h x =
     {counters x, gauges x, histograms x, sets x, timers x} \<union>
     fmran' (map_objs h (counters x)) \<union> fmran' (map_objs h (gauges x)) \<union>
     fmran' (map_objs h (histograms x)) \<union> fmran' (map_objs h (sets x)) \<union>
     fmran' (map_objs h (timers x))"

text \<open>Two stores hold the same objects at every address of a set.\<close>

definition same_on ::
  "addr set \<Rightarrow> ('c, 'g, 'h, 's) heap \<Rightarrow> ('c, 'g, 'h, 's) heap \<Rightarrow> bool" where
  "same_on A h h' \<longleftrightarrow>
     (\<forall>a\<in>A. map_objs h' a = map_objs h a \<and> Counter_objs h' a = Counter_objs h a \<and>
            Gauge_objs h' a = Gauge_objs h a \<and> Histo_objs h' a = Histo_objs h a \<and>
            Set_objs h' a = Set_objs h a)"

subsection \<open>The invariant of the store\<close>

text \<open>
  Go's allocator never hands out an address twice, and worker.go stores each pointer it
  gets from a constructor under one key of one map. So in every state the worker can be
  in: the five map objects are allocated and distinct, every stored pointer is allocated,
  no map stores one pointer under two keys, and the two maps of \<open>*Histo\<close> share no pointer.
\<close>

definition below :: "addr \<Rightarrow> (MetricKey, addr) fmap \<Rightarrow> bool" where
  "below n mp = fmpred (\<lambda>k p. p < n) mp"

definition apart :: "(MetricKey, addr) fmap \<Rightarrow> (MetricKey, addr) fmap \<Rightarrow> bool" where
  "apart mp mp' = fmpred (\<lambda>k p. fmpred (\<lambda>k' p'. p \<noteq> p') mp') mp"

definition inj_map :: "(MetricKey, addr) fmap \<Rightarrow> bool" where
  "inj_map mp = fmpred (\<lambda>k p. fmpred (\<lambda>k' p'. p = p' \<longrightarrow> k = k') mp) mp"

definition wf :: "('c, 'g, 'h, 's) state \<Rightarrow> bool" where
  "wf st =
     (let h = heap st; x = wm (worker st); n = next_addr h
      in counters x < n \<and> gauges x < n \<and> histograms x < n \<and> sets x < n \<and> timers x < n \<and>
         distinct [counters x, gauges x, histograms x, sets x, timers x] \<and>
         below n (map_objs h (counters x)) \<and> below n (map_objs h (gauges x)) \<and>
         below n (map_objs h (histograms x)) \<and> below n (map_objs h (sets x)) \<and>
         below n (map_objs h (timers x)) \<and>
         inj_map (map_objs h (counters x)) \<and> inj_map (map_objs h (gauges x)) \<and>
         inj_map (map_objs h (histograms x)) \<and> inj_map (map_objs h (sets x)) \<and>
         inj_map (map_objs h (timers x)) \<and>
         apart (map_objs h (histograms x)) (map_objs h (timers x)))"

text \<open>
  What one call may do to the store, seen from outside the worker: it allocates upwards,
  it leaves every allocated object alone that the live snapshot does not refer to, and
  whatever the live snapshot refers to afterwards it referred to before or is new.
\<close>

definition frame :: "('c, 'g, 'h, 's) state \<Rightarrow> ('c, 'g, 'h, 's) state \<Rightarrow> bool" where
  "frame st st' \<longleftrightarrow>
     next_addr (heap st) \<le> next_addr (heap st') \<and>
     same_on ({..<next_addr (heap st)} - reach (heap st) (wm (worker st))) (heap st) (heap st') \<and>
     reach (heap st') (wm (worker st')) \<subseteq>
       reach (heap st) (wm (worker st)) \<union> {a. next_addr (heap st) \<le> a}"

subsection \<open>The fold of samples\<close>

text \<open>
  The spec's side of the routing invariant: the accumulator a new identity starts from,
  one \<open>sample(value, sampleRate)\<close> call on an accumulator, and the step that folds one
  sample into the accumulator an identity has so far (none before its first sample).
\<close>

definition new_accumulator ::
  "('c, 'g, 'h, 's) samplers \<Rightarrow> UDPMetric \<Rightarrow> ('c, 'g, 'h, 's) accumulator option" where
  "new_accumulator ops m =
     (let k = MetricKey m
      in if Type k = ''counter'' then Some (ACounter (NewCounter ops (Name k) (Tags m)))
         else if Type k = ''gauge'' then Some (AGauge (NewGauge ops (Name k) (Tags m)))
         else if Type k = ''histogram'' then Some (AHisto (NewHist ops (Name k) (Tags m)))
         else if Type k = ''set'' then Some (ASet (NewSet ops (Name k) (Tags m)))
         else if Type k = ''timer'' then Some (AHisto (NewHist ops (Name k) (Tags m)))
         else None)"

fun sample ::
  "('c, 'g, 'h, 's) samplers \<Rightarrow> ('c, 'g, 'h, 's) accumulator \<Rightarrow> interface \<Rightarrow> float32 \<Rightarrow>
   ('c, 'g, 'h, 's) accumulator" where
  "sample ops (ACounter c) (Float64 v) r = ACounter (Counter_Sample ops c v r)"
| "sample ops (AGauge g) (Float64 v) r = AGauge (Gauge_Sample ops g v r)"
| "sample ops (AHisto x) (Float64 v) r = AHisto (Histo_Sample ops x v r)"
| "sample ops (ASet s) (String v) r = ASet (Set_Sample ops s v r)"
| "sample ops a v r = a"

definition sample_step ::
  "('c, 'g, 'h, 's) samplers \<Rightarrow> ('c, 'g, 'h, 's) accumulator option \<Rightarrow> UDPMetric \<Rightarrow>
   ('c, 'g, 'h, 's) accumulator option" where
  "sample_step ops acc m =
     (case (case acc of None \<Rightarrow> new_accumulator ops m | Some a \<Rightarrow> Some a) of
        None \<Rightarrow> None
      | Some a \<Rightarrow> Some (sample ops a (Value m) (SampleRate m)))"

definition fold_samples ::
  "('c, 'g, 'h, 's) samplers \<Rightarrow> MetricKey \<Rightarrow> ('c, 'g, 'h, 's) accumulator option \<Rightarrow>
   UDPMetric list \<Rightarrow> ('c, 'g, 'h, 's) accumulator option" where
  "fold_samples ops k acc ms = foldl (sample_step ops) acc (filter (\<lambda>m. MetricKey m = k) ms)"

text \<open>The value of a sample has the representation its type expects.\<close>

definition value_agrees :: "UDPMetric \<Rightarrow> bool" where
  "value_agrees m =
     (let t = Type (MetricKey m)
      in if t = ''set'' then (case Value m of String v \<Rightarrow> True | _ \<Rightarrow> False)
         else if t = ''counter'' \<or> t = ''gauge'' \<or> t = ''histogram'' \<or> t = ''timer''
         then (case Value m of Float64 v \<Rightarrow> True | _ \<Rightarrow> False)
         else True)"

definition known_type :: "string \<Rightarrow> bool" where
  "known_type t \<longleftrightarrow> t \<in> set [''counter'', ''gauge'', ''histogram'', ''set'', ''timer'']"

subsection \<open>Concrete inputs\<close>

text \<open>
  An instance of the accumulator parameters for evaluating statements at concrete inputs:
  an accumulator is the list of the values it was given, and \<open>Combine\<close> rejects the empty
  encoding and leaves the set as it was.
\<close>

definition recorder :: "(float64 list, float64 list, float64 list, string list) samplers" where
  "recorder =
     \<lparr>NewCounter = (\<lambda>n t. []), Counter_Sample = (\<lambda>c v r. c @ [v]),
      NewGauge = (\<lambda>n t. []), Gauge_Sample = (\<lambda>g v r. g @ [v]),
      NewHist = (\<lambda>n t. []), Histo_Sample = (\<lambda>x v r. x @ [v]),
      NewSet = (\<lambda>n t. []), Set_Sample = (\<lambda>s v r. s @ [v]),
      Set_Combine = (\<lambda>s bs. if bs = [] then (s, Some ''unexpected EOF'')
                             else (s @ [''merged''], None))\<rparr>"

definition heap0 :: "(float64 list, float64 list, float64 list, string list) heap" where
  "heap0 =
     \<lparr>next_addr = 0, map_objs = (\<lambda>a. fmempty), Counter_objs = (\<lambda>a. []),
      Gauge_objs = (\<lambda>a. []), Histo_objs = (\<lambda>a. []), Set_objs = (\<lambda>a. [])\<rparr>"

definition fresh0 :: "(float64 list, float64 list, float64 list, string list) state" where
  "fresh0 = NewWorker heap0 7"

definition key_requests :: MetricKey where
  "key_requests = \<lparr>Name = ''requests'', Type = ''counter'', JoinedTags = []\<rparr>"

definition key_cpu :: MetricKey where
  "key_cpu = \<lparr>Name = ''cpu'', Type = ''gauge'', JoinedTags = []\<rparr>"

definition key_users :: MetricKey where
  "key_users = \<lparr>Name = ''users'', Type = ''set'', JoinedTags = []\<rparr>"

definition key_bogus :: MetricKey where
  "key_bogus = \<lparr>Name = ''x'', Type = ''bogus'', JoinedTags = []\<rparr>"

definition requests_1 :: UDPMetric where
  "requests_1 = \<lparr>MetricKey = key_requests, Value = Float64 f64_one, SampleRate = f32_one,
                  Tags = []\<rparr>"

definition cpu_half :: UDPMetric where
  "cpu_half = \<lparr>MetricKey = key_cpu, Value = Float64 f64_half, SampleRate = f32_one,
                Tags = []\<rparr>"

definition bogus_sample :: UDPMetric where
  "bogus_sample = \<lparr>MetricKey = key_bogus, Value = Float64 f64_one, SampleRate = f32_one,
                    Tags = []\<rparr>"

definition users_bad :: JSONMetric where
  "users_bad = \<lparr>MetricKey_J = key_users, Tags_J = [], Value_J = []\<rparr>"

definition users_good :: JSONMetric where
  "users_good = \<lparr>MetricKey_J = key_users, Tags_J = [], Value_J = [1]\<rparr>"

definition counter_import :: JSONMetric where
  "counter_import = \<lparr>MetricKey_J = key_requests, Tags_J = [], Value_J = [1]\<rparr>"

text \<open>A worker that has seen one sample of \<open>requests\<close>, and one that has seen the bogus sample.\<close>

definition seen0 :: "(float64 list, float64 list, float64 list, string list) state" where
  "seen0 = state_after (ProcessMetric recorder fresh0 requests_1)"

definition bogus0 :: "(float64 list, float64 list, float64 list, string list) state" where
  "bogus0 = state_after (ProcessMetric recorder fresh0 bogus_sample)"

text \<open>A worker after the import that \<open>Combine\<close> rejects.\<close>

definition imported_bad0 :: "(float64 list, float64 list, float64 list, string list) state" where
  "imported_bad0 = state_after (ImportMetric recorder fresh0 users_bad)"

text \<open>
  A worker at the \<open>select\<close>, with a sample offered on \<open>WorkChan\<close> and after a call of \<open>Stop\<close>,
  and the same worker after the quit case.
\<close>

definition both0 :: "(float64 list, float64 list, float64 list, string list) state" where
  "both0 = state_after (Stop (fresh0\<lparr>worker := (worker fresh0)\<lparr>WorkChan := [requests_1]\<rparr>\<rparr>))"

definition quit0 :: "(float64 list, float64 list, float64 list, string list) state" where
  "quit0 = log_entry_to both0 (Entry ErrorLevel (FieldInt ''worker'' 7) ''Stopping'')"

section \<open>Properties of the store\<close>

lemmas prim_defs = log_entry_to_def new_Counter_def new_Gauge_def new_Histo_def new_Set_def
  map_assign_def map_index_def

lemmas view_defs = Counter_at_def Gauge_at_def Histogram_at_def Set_at_def Timer_at_def

lemma below_upd: "below n mp \<Longrightarrow> below (Suc n) (fmupd k n mp)"
  by (auto simp: below_def fmpred_iff less_Suc_eq)

lemma below_Suc: "below n mp \<Longrightarrow> below (Suc n) mp"
  by (auto simp: below_def fmpred_iff less_Suc_eq)

lemma below_mono: "below n mp \<Longrightarrow> n \<le> n' \<Longrightarrow> below n' mp"
  by (fastforce simp: below_def fmpred_iff)

lemma below_empty: "below n fmempty"
  by (simp add: below_def)

lemma inj_map_empty: "inj_map fmempty"
  by (simp add: inj_map_def)

lemma apart_empty: "apart fmempty mp"
  by (simp add: apart_def)

lemma belowD: "below n mp \<Longrightarrow> fmlookup mp k = Some p \<Longrightarrow> p < n"
  by (auto simp: below_def fmpred_iff)

lemma inj_mapD:
  "inj_map mp \<Longrightarrow> fmlookup mp k = Some p \<Longrightarrow> fmlookup mp k' = Some p \<Longrightarrow> k = k'"
  by (auto simp: inj_map_def fmpred_iff)

lemma apartD:
  "apart mp mp' \<Longrightarrow> fmlookup mp k = Some p \<Longrightarrow> fmlookup mp' k' = Some p' \<Longrightarrow> p \<noteq> p'"
  by (auto simp: apart_def fmpred_iff)

lemma inj_map_upd:
  "inj_map mp \<Longrightarrow> below n mp \<Longrightarrow> fmlookup mp k = None \<Longrightarrow> inj_map (fmupd k n mp)"
  by (auto simp: inj_map_def below_def fmpred_iff)

lemma apart_upd_left: "apart mp mp' \<Longrightarrow> below n mp' \<Longrightarrow> apart (fmupd k n mp) mp'"
  by (auto simp: apart_def below_def fmpred_iff)

lemma apart_upd_right: "apart mp mp' \<Longrightarrow> below n mp \<Longrightarrow> apart mp (fmupd k n mp')"
  by (auto simp: apart_def below_def fmpred_iff)

lemmas wf_intros = below_upd below_Suc inj_map_upd apart_upd_left apart_upd_right

text \<open>An update of an object that a map does not point to is invisible through the map.\<close>

lemma view_fresh:
  "below n mp \<Longrightarrow> map_option (f(n := v)) (fmlookup mp k) = map_option f (fmlookup mp k)"
  by (cases "fmlookup mp k") (auto dest: belowD)

lemma view_inj:
  "inj_map mp \<Longrightarrow> fmlookup mp k' = Some p \<Longrightarrow> k \<noteq> k' \<Longrightarrow>
   map_option (f(p := v)) (fmlookup mp k) = map_option f (fmlookup mp k)"
  by (cases "fmlookup mp k") (auto dest: inj_mapD)

lemma view_apart:
  "apart mp mp' \<Longrightarrow> fmlookup mp k' = Some p \<Longrightarrow>
   map_option (f(p := v)) (fmlookup mp' k) = map_option f (fmlookup mp' k)"
  by (cases "fmlookup mp' k") (auto dest: apartD)

lemma view_apart':
  "apart mp mp' \<Longrightarrow> fmlookup mp' k' = Some p \<Longrightarrow>
   map_option (f(p := v)) (fmlookup mp k) = map_option f (fmlookup mp k)"
  by (cases "fmlookup mp k") (auto dest: apartD)

lemma wfD:
  assumes "wf st"
  shows "counters (wm (worker st)) < next_addr (heap st)"
    and "gauges (wm (worker st)) < next_addr (heap st)"
    and "histograms (wm (worker st)) < next_addr (heap st)"
    and "sets (wm (worker st)) < next_addr (heap st)"
    and "timers (wm (worker st)) < next_addr (heap st)"
    and "counters (wm (worker st)) \<noteq> gauges (wm (worker st))"
    and "counters (wm (worker st)) \<noteq> histograms (wm (worker st))"
    and "counters (wm (worker st)) \<noteq> sets (wm (worker st))"
    and "counters (wm (worker st)) \<noteq> timers (wm (worker st))"
    and "gauges (wm (worker st)) \<noteq> histograms (wm (worker st))"
    and "gauges (wm (worker st)) \<noteq> sets (wm (worker st))"
    and "gauges (wm (worker st)) \<noteq> timers (wm (worker st))"
    and "histograms (wm (worker st)) \<noteq> sets (wm (worker st))"
    and "histograms (wm (worker st)) \<noteq> timers (wm (worker st))"
    and "sets (wm (worker st)) \<noteq> timers (wm (worker st))"
    and "below (next_addr (heap st)) (map_objs (heap st) (counters (wm (worker st))))"
    and "below (next_addr (heap st)) (map_objs (heap st) (gauges (wm (worker st))))"
    and "below (next_addr (heap st)) (map_objs (heap st) (histograms (wm (worker st))))"
    and "below (next_addr (heap st)) (map_objs (heap st) (sets (wm (worker st))))"
    and "below (next_addr (heap st)) (map_objs (heap st) (timers (wm (worker st))))"
    and "inj_map (map_objs (heap st) (counters (wm (worker st))))"
    and "inj_map (map_objs (heap st) (gauges (wm (worker st))))"
    and "inj_map (map_objs (heap st) (histograms (wm (worker st))))"
    and "inj_map (map_objs (heap st) (sets (wm (worker st))))"
    and "inj_map (map_objs (heap st) (timers (wm (worker st))))"
    and "apart (map_objs (heap st) (histograms (wm (worker st))))
           (map_objs (heap st) (timers (wm (worker st))))"
  using assms by (simp_all add: wf_def Let_def)

text \<open>Every address a well-formed worker refers to is allocated.\<close>

lemma wf_reach: "wf st \<Longrightarrow> reach (heap st) (wm (worker st)) \<subseteq> {..<next_addr (heap st)}"
  by (auto simp: reach_def fmlookup_ran'_iff dest: wfD(1-5) belowD [OF wfD(16)] belowD [OF wfD(17)]
      belowD [OF wfD(18)] belowD [OF wfD(19)] belowD [OF wfD(20)])

lemma same_on_refl: "same_on A h h"
  by (simp add: same_on_def)

lemma same_on_trans: "same_on A h h' \<Longrightarrow> same_on A h' h'' \<Longrightarrow> same_on A h h''"
  by (simp add: same_on_def)

lemma same_on_mono: "same_on B h h' \<Longrightarrow> A \<subseteq> B \<Longrightarrow> same_on A h h'"
  by (auto simp: same_on_def)

lemma same_on_reach: "same_on (reach h x) h h' \<Longrightarrow> reach h' x = reach h x"
  by (simp add: same_on_def reach_def)

lemma same_onD:
  assumes "same_on A h h'" "a \<in> A"
  shows "map_objs h' a = map_objs h a" and "Counter_objs h' a = Counter_objs h a"
    and "Gauge_objs h' a = Gauge_objs h a" and "Histo_objs h' a = Histo_objs h a"
    and "Set_objs h' a = Set_objs h a"
  using assms by (simp_all add: same_on_def)

lemma reach_maps:
  "counters x \<in> reach h x" "gauges x \<in> reach h x" "histograms x \<in> reach h x"
  "sets x \<in> reach h x" "timers x \<in> reach h x"
  by (simp_all add: reach_def)

lemma reach_pointers:
  "fmlookup (map_objs h (counters x)) k = Some p \<Longrightarrow> p \<in> reach h x"
  "fmlookup (map_objs h (gauges x)) k = Some p \<Longrightarrow> p \<in> reach h x"
  "fmlookup (map_objs h (histograms x)) k = Some p \<Longrightarrow> p \<in> reach h x"
  "fmlookup (map_objs h (sets x)) k = Some p \<Longrightarrow> p \<in> reach h x"
  "fmlookup (map_objs h (timers x)) k = Some p \<Longrightarrow> p \<in> reach h x"
  by (auto simp: reach_def fmlookup_ran'_iff)

lemma same_on_views:
  assumes "same_on (reach h x) h h'"
  shows "Counter_at h' x k = Counter_at h x k"
    and "Gauge_at h' x k = Gauge_at h x k"
    and "Histogram_at h' x k = Histogram_at h x k"
    and "Set_at h' x k = Set_at h x k"
    and "Timer_at h' x k = Timer_at h x k"
proof -
  note M = same_onD(1) [OF assms reach_maps(1)] same_onD(1) [OF assms reach_maps(2)]
    same_onD(1) [OF assms reach_maps(3)] same_onD(1) [OF assms reach_maps(4)]
    same_onD(1) [OF assms reach_maps(5)]
  show "Counter_at h' x k = Counter_at h x k"
    by (cases "fmlookup (map_objs h (counters x)) k")
       (simp_all add: Counter_at_def map_index_def M same_onD(2) [OF assms reach_pointers(1)])
  show "Gauge_at h' x k = Gauge_at h x k"
    by (cases "fmlookup (map_objs h (gauges x)) k")
       (simp_all add: Gauge_at_def map_index_def M same_onD(3) [OF assms reach_pointers(2)])
  show "Histogram_at h' x k = Histogram_at h x k"
    by (cases "fmlookup (map_objs h (histograms x)) k")
       (simp_all add: Histogram_at_def map_index_def M same_onD(4) [OF assms reach_pointers(3)])
  show "Set_at h' x k = Set_at h x k"
    by (cases "fmlookup (map_objs h (sets x)) k")
       (simp_all add: Set_at_def map_index_def M same_onD(5) [OF assms reach_pointers(4)])
  show "Timer_at h' x k = Timer_at h x k"
    by (cases "fmlookup (map_objs h (timers x)) k")
       (simp_all add: Timer_at_def map_index_def M same_onD(4) [OF assms reach_pointers(5)])
qed

lemma frame_refl: "frame st st"
  by (simp add: frame_def same_on_refl)

lemma frame_logger: "frame st st' \<Longrightarrow> frame st (log_entry_to st' e)"
  by (simp add: frame_def log_entry_to_def)

text \<open>Objects apart from the live snapshot stay apart from it and stay as they are.\<close>

lemma frame_apart:
  assumes "frame st st'" "A \<subseteq> {..<next_addr (heap st)}"
    "A \<inter> reach (heap st) (wm (worker st)) = {}"
  shows "same_on A (heap st) (heap st')"
    and "A \<subseteq> {..<next_addr (heap st')}"
    and "A \<inter> reach (heap st') (wm (worker st')) = {}"
proof -
  from assms show "same_on A (heap st) (heap st')"
    by (auto simp: frame_def elim!: same_on_mono)
  from assms show "A \<subseteq> {..<next_addr (heap st')}"
    by (auto simp: frame_def)
  from assms show "A \<inter> reach (heap st') (wm (worker st')) = {}"
    by (fastforce simp: frame_def)
qed

section \<open>The five cases of ProcessMetric\<close>

subsection \<open>Case counter\<close>

lemma case_counter_worker:
  "worker (state_after (case_counter ops st m)) =
     (worker st)\<lparr>logger := logger (worker (state_after (case_counter ops st m)))\<rparr>"
  by (simp add: case_counter_def prim_defs state_after_def Let_def split: interface.splits option.splits)

lemma case_counter_kept:
  "wm (worker (state_after (case_counter ops st m))) = wm (worker st)"
  "processed (worker (state_after (case_counter ops st m))) = processed (worker st)"
  "imported (worker (state_after (case_counter ops st m))) = imported (worker st)"
  by (subst case_counter_worker, simp)+

lemma case_counter_no_nil: "case_counter ops st m \<noteq> Inl (NilDereference, s)"
  by (simp add: case_counter_def prim_defs Let_def split: interface.splits option.splits)

lemma case_counter_returned: "returned (case_counter ops st m) \<longleftrightarrow> (\<exists>v. Value m = Float64 v)"
  by (simp add: case_counter_def prim_defs Let_def returned_def split: interface.splits option.splits)

lemma case_counter_wf:
  assumes "wf st"
  shows "wf (state_after (case_counter ops st m))"
proof -
  note D = wfD [OF assms] and D' = wfD(6-15) [OF assms, symmetric]
  show ?thesis
    by (cases "Value m"; cases "fmlookup (map_objs (heap st) (counters (wm (worker st)))) (MetricKey m)")
       (simp_all add: case_counter_def prim_defs state_after_def Let_def wf_def D D' wf_intros less_Suc_eq)
qed

lemma case_counter_frame: "frame st (state_after (case_counter ops st m))"
proof -
  have "next_addr (heap st) \<le> next_addr (heap (state_after (case_counter ops st m)))"
    by (cases "Value m"; cases "fmlookup (map_objs (heap st) (counters (wm (worker st)))) (MetricKey m)")
       (simp_all add: case_counter_def prim_defs state_after_def Let_def)
  moreover have "same_on ({..<next_addr (heap st)} - reach (heap st) (wm (worker st)))
      (heap st) (heap (state_after (case_counter ops st m)))"
    by (cases "Value m"; cases "fmlookup (map_objs (heap st) (counters (wm (worker st)))) (MetricKey m)")
       (auto simp: case_counter_def prim_defs state_after_def Let_def same_on_def reach_def fmlookup_ran'_iff)
  moreover have "reach (heap (state_after (case_counter ops st m)))
      (wm (worker (state_after (case_counter ops st m)))) \<subseteq>
      reach (heap st) (wm (worker st)) \<union> {a. next_addr (heap st) \<le> a}"
    by (cases "Value m"; cases "fmlookup (map_objs (heap st) (counters (wm (worker st)))) (MetricKey m)")
       (auto simp: case_counter_def prim_defs state_after_def Let_def reach_def fmlookup_ran'_iff split: if_splits)
  ultimately show ?thesis
    by (simp add: frame_def)
qed

lemma case_counter_pointer:
  assumes "case_counter ops st m = Inr st'"
  shows "map_index (heap st') (counters (wm (worker st))) (MetricKey m) =
           (case map_index (heap st) (counters (wm (worker st))) (MetricKey m) of
              None \<Rightarrow> Some (next_addr (heap st)) | Some p \<Rightarrow> Some p)"
proof -
  from assms have st': "st' = state_after (case_counter ops st m)"
    by (simp add: state_after_def)
  show ?thesis
    unfolding st'
    by (cases "Value m"; cases "fmlookup (map_objs (heap st) (counters (wm (worker st)))) (MetricKey m)")
       (simp_all add: case_counter_def prim_defs state_after_def Let_def)
qed


lemma case_counter_views:
  assumes "wf st" "case_counter ops st m = Inr st'"
  shows "Counter_at (heap st') (wm (worker st)) k =
          (if k = MetricKey m
           then Some (Counter_Sample ops
                  (case Counter_at (heap st) (wm (worker st)) k of
                     None \<Rightarrow> NewCounter ops (Name k) (Tags m) | Some a \<Rightarrow> a)
                  (case Value m of Float64 v \<Rightarrow> v) (SampleRate m))
           else Counter_at (heap st) (wm (worker st)) k)"
    and "Gauge_at (heap st') (wm (worker st)) k = Gauge_at (heap st) (wm (worker st)) k"
    and "Histogram_at (heap st') (wm (worker st)) k = Histogram_at (heap st) (wm (worker st)) k"
    and "Set_at (heap st') (wm (worker st)) k = Set_at (heap st) (wm (worker st)) k"
    and "Timer_at (heap st') (wm (worker st)) k = Timer_at (heap st) (wm (worker st)) k"
proof -
  note D = wfD [OF assms(1)] and D' = wfD(6-15) [OF assms(1), symmetric]
  from assms(2) have "returned (case_counter ops st m)"
    by (simp add: returned_def)
  then obtain v where v: "Value m = Float64 v"
    by (auto simp: case_counter_returned)
  from assms(2) have st': "st' = state_after (case_counter ops st m)"
    by (simp add: state_after_def)
  show "Counter_at (heap st') (wm (worker st)) k =
          (if k = MetricKey m
           then Some (Counter_Sample ops
                  (case Counter_at (heap st) (wm (worker st)) k of
                     None \<Rightarrow> NewCounter ops (Name k) (Tags m) | Some a \<Rightarrow> a)
                  (case Value m of Float64 v \<Rightarrow> v) (SampleRate m))
           else Counter_at (heap st) (wm (worker st)) k)"
  proof (cases "fmlookup (map_objs (heap st) (counters (wm (worker st)))) (MetricKey m)")
    case None
    show ?thesis
      unfolding st' using None v
      by (simp add: case_counter_def prim_defs state_after_def Let_def view_defs D(6-15) D' view_fresh [OF D(16)] view_fresh [OF D(17)] view_fresh [OF D(18)] view_fresh [OF D(19)] view_fresh [OF D(20)])
  next
    case (Some p)
    show ?thesis
      unfolding st' using Some v
      by (simp add: case_counter_def prim_defs state_after_def Let_def view_defs D(6-15) D' view_inj [OF D(21) Some])
  qed
  show "Gauge_at (heap st') (wm (worker st)) k = Gauge_at (heap st) (wm (worker st)) k"
  proof (cases "fmlookup (map_objs (heap st) (counters (wm (worker st)))) (MetricKey m)")
    case None
    show ?thesis
      unfolding st' using None v
      by (simp add: case_counter_def prim_defs state_after_def Let_def view_defs D(6-15) D' view_fresh [OF D(16)] view_fresh [OF D(17)] view_fresh [OF D(18)] view_fresh [OF D(19)] view_fresh [OF D(20)])
  next
    case (Some p)
    show ?thesis
      unfolding st' using Some v
      by (simp add: case_counter_def prim_defs state_after_def Let_def view_defs D(6-15) D' )
  qed
  show "Histogram_at (heap st') (wm (worker st)) k = Histogram_at (heap st) (wm (worker st)) k"
  proof (cases "fmlookup (map_objs (heap st) (counters (wm (worker st)))) (MetricKey m)")
    case None
    show ?thesis
      unfolding st' using None v
      by (simp add: case_counter_def prim_defs state_after_def Let_def view_defs D(6-15) D' view_fresh [OF D(16)] view_fresh [OF D(17)] view_fresh [OF D(18)] view_fresh [OF D(19)] view_fresh [OF D(20)])
  next
    case (Some p)
    show ?thesis
      unfolding st' using Some v
      by (simp add: case_counter_def prim_defs state_after_def Let_def view_defs D(6-15) D' )
  qed
  show "Set_at (heap st') (wm (worker st)) k = Set_at (heap st) (wm (worker st)) k"
  proof (cases "fmlookup (map_objs (heap st) (counters (wm (worker st)))) (MetricKey m)")
    case None
    show ?thesis
      unfolding st' using None v
      by (simp add: case_counter_def prim_defs state_after_def Let_def view_defs D(6-15) D' view_fresh [OF D(16)] view_fresh [OF D(17)] view_fresh [OF D(18)] view_fresh [OF D(19)] view_fresh [OF D(20)])
  next
    case (Some p)
    show ?thesis
      unfolding st' using Some v
      by (simp add: case_counter_def prim_defs state_after_def Let_def view_defs D(6-15) D' )
  qed
  show "Timer_at (heap st') (wm (worker st)) k = Timer_at (heap st) (wm (worker st)) k"
  proof (cases "fmlookup (map_objs (heap st) (counters (wm (worker st)))) (MetricKey m)")
    case None
    show ?thesis
      unfolding st' using None v
      by (simp add: case_counter_def prim_defs state_after_def Let_def view_defs D(6-15) D' view_fresh [OF D(16)] view_fresh [OF D(17)] view_fresh [OF D(18)] view_fresh [OF D(19)] view_fresh [OF D(20)])
  next
    case (Some p)
    show ?thesis
      unfolding st' using Some v
      by (simp add: case_counter_def prim_defs state_after_def Let_def view_defs D(6-15) D' )
  qed
qed

subsection \<open>Case gauge\<close>

lemma case_gauge_worker:
  "worker (state_after (case_gauge ops st m)) =
     (worker st)\<lparr>logger := logger (worker (state_after (case_gauge ops st m)))\<rparr>"
  by (simp add: case_gauge_def prim_defs state_after_def Let_def split: interface.splits option.splits)

lemma case_gauge_kept:
  "wm (worker (state_after (case_gauge ops st m))) = wm (worker st)"
  "processed (worker (state_after (case_gauge ops st m))) = processed (worker st)"
  "imported (worker (state_after (case_gauge ops st m))) = imported (worker st)"
  by (subst case_gauge_worker, simp)+

lemma case_gauge_no_nil: "case_gauge ops st m \<noteq> Inl (NilDereference, s)"
  by (simp add: case_gauge_def prim_defs Let_def split: interface.splits option.splits)

lemma case_gauge_returned: "returned (case_gauge ops st m) \<longleftrightarrow> (\<exists>v. Value m = Float64 v)"
  by (simp add: case_gauge_def prim_defs Let_def returned_def split: interface.splits option.splits)

lemma case_gauge_wf:
  assumes "wf st"
  shows "wf (state_after (case_gauge ops st m))"
proof -
  note D = wfD [OF assms] and D' = wfD(6-15) [OF assms, symmetric]
  show ?thesis
    by (cases "Value m"; cases "fmlookup (map_objs (heap st) (gauges (wm (worker st)))) (MetricKey m)")
       (simp_all add: case_gauge_def prim_defs state_after_def Let_def wf_def D D' wf_intros less_Suc_eq)
qed

lemma case_gauge_frame: "frame st (state_after (case_gauge ops st m))"
proof -
  have "next_addr (heap st) \<le> next_addr (heap (state_after (case_gauge ops st m)))"
    by (cases "Value m"; cases "fmlookup (map_objs (heap st) (gauges (wm (worker st)))) (MetricKey m)")
       (simp_all add: case_gauge_def prim_defs state_after_def Let_def)
  moreover have "same_on ({..<next_addr (heap st)} - reach (heap st) (wm (worker st)))
      (heap st) (heap (state_after (case_gauge ops st m)))"
    by (cases "Value m"; cases "fmlookup (map_objs (heap st) (gauges (wm (worker st)))) (MetricKey m)")
       (auto simp: case_gauge_def prim_defs state_after_def Let_def same_on_def reach_def fmlookup_ran'_iff)
  moreover have "reach (heap (state_after (case_gauge ops st m)))
      (wm (worker (state_after (case_gauge ops st m)))) \<subseteq>
      reach (heap st) (wm (worker st)) \<union> {a. next_addr (heap st) \<le> a}"
    by (cases "Value m"; cases "fmlookup (map_objs (heap st) (gauges (wm (worker st)))) (MetricKey m)")
       (auto simp: case_gauge_def prim_defs state_after_def Let_def reach_def fmlookup_ran'_iff split: if_splits)
  ultimately show ?thesis
    by (simp add: frame_def)
qed

lemma case_gauge_pointer:
  assumes "case_gauge ops st m = Inr st'"
  shows "map_index (heap st') (gauges (wm (worker st))) (MetricKey m) =
           (case map_index (heap st) (gauges (wm (worker st))) (MetricKey m) of
              None \<Rightarrow> Some (next_addr (heap st)) | Some p \<Rightarrow> Some p)"
proof -
  from assms have st': "st' = state_after (case_gauge ops st m)"
    by (simp add: state_after_def)
  show ?thesis
    unfolding st'
    by (cases "Value m"; cases "fmlookup (map_objs (heap st) (gauges (wm (worker st)))) (MetricKey m)")
       (simp_all add: case_gauge_def prim_defs state_after_def Let_def)
qed


lemma case_gauge_views:
  assumes "wf st" "case_gauge ops st m = Inr st'"
  shows "Gauge_at (heap st') (wm (worker st)) k =
          (if k = MetricKey m
           then Some (Gauge_Sample ops
                  (case Gauge_at (heap st) (wm (worker st)) k of
                     None \<Rightarrow> NewGauge ops (Name k) (Tags m) | Some a \<Rightarrow> a)
                  (case Value m of Float64 v \<Rightarrow> v) (SampleRate m))
           else Gauge_at (heap st) (wm (worker st)) k)"
    and "Counter_at (heap st') (wm (worker st)) k = Counter_at (heap st) (wm (worker st)) k"
    and "Histogram_at (heap st') (wm (worker st)) k = Histogram_at (heap st) (wm (worker st)) k"
    and "Set_at (heap st') (wm (worker st)) k = Set_at (heap st) (wm (worker st)) k"
    and "Timer_at (heap st') (wm (worker st)) k = Timer_at (heap st) (wm (worker st)) k"
proof -
  note D = wfD [OF assms(1)] and D' = wfD(6-15) [OF assms(1), symmetric]
  from assms(2) have "returned (case_gauge ops st m)"
    by (simp add: returned_def)
  then obtain v where v: "Value m = Float64 v"
    by (auto simp: case_gauge_returned)
  from assms(2) have st': "st' = state_after (case_gauge ops st m)"
    by (simp add: state_after_def)
  show "Gauge_at (heap st') (wm (worker st)) k =
          (if k = MetricKey m
           then Some (Gauge_Sample ops
                  (case Gauge_at (heap st) (wm (worker st)) k of
                     None \<Rightarrow> NewGauge ops (Name k) (Tags m) | Some a \<Rightarrow> a)
                  (case Value m of Float64 v \<Rightarrow> v) (SampleRate m))
           else Gauge_at (heap st) (wm (worker st)) k)"
  proof (cases "fmlookup (map_objs (heap st) (gauges (wm (worker st)))) (MetricKey m)")
    case None
    show ?thesis
      unfolding st' using None v
      by (simp add: case_gauge_def prim_defs state_after_def Let_def view_defs D(6-15) D' view_fresh [OF D(16)] view_fresh [OF D(17)] view_fresh [OF D(18)] view_fresh [OF D(19)] view_fresh [OF D(20)])
  next
    case (Some p)
    show ?thesis
      unfolding st' using Some v
      by (simp add: case_gauge_def prim_defs state_after_def Let_def view_defs D(6-15) D' view_inj [OF D(22) Some])
  qed
  show "Counter_at (heap st') (wm (worker st)) k = Counter_at (heap st) (wm (worker st)) k"
  proof (cases "fmlookup (map_objs (heap st) (gauges (wm (worker st)))) (MetricKey m)")
    case None
    show ?thesis
      unfolding st' using None v
      by (simp add: case_gauge_def prim_defs state_after_def Let_def view_defs D(6-15) D' view_fresh [OF D(16)] view_fresh [OF D(17)] view_fresh [OF D(18)] view_fresh [OF D(19)] view_fresh [OF D(20)])
  next
    case (Some p)
    show ?thesis
      unfolding st' using Some v
      by (simp add: case_gauge_def prim_defs state_after_def Let_def view_defs D(6-15) D' )
  qed
  show "Histogram_at (heap st') (wm (worker st)) k = Histogram_at (heap st) (wm (worker st)) k"
  proof (cases "fmlookup (map_objs (heap st) (gauges (wm (worker st)))) (MetricKey m)")
    case None
    show ?thesis
      unfolding st' using None v
      by (simp add: case_gauge_def prim_defs state_after_def Let_def view_defs D(6-15) D' view_fresh [OF D(16)] view_fresh [OF D(17)] view_fresh [OF D(18)] view_fresh [OF D(19)] view_fresh [OF D(20)])
  next
    case (Some p)
    show ?thesis
      unfolding st' using Some v
      by (simp add: case_gauge_def prim_defs state_after_def Let_def view_defs D(6-15) D' )
  qed
  show "Set_at (heap st') (wm (worker st)) k = Set_at (heap st) (wm (worker st)) k"
  proof (cases "fmlookup (map_objs (heap st) (gauges (wm (worker st)))) (MetricKey m)")
    case None
    show ?thesis
      unfolding st' using None v
      by (simp add: case_gauge_def prim_defs state_after_def Let_def view_defs D(6-15) D' view_fresh [OF D(16)] view_fresh [OF D(17)] view_fresh [OF D(18)] view_fresh [OF D(19)] view_fresh [OF D(20)])
  next
    case (Some p)
    show ?thesis
      unfolding st' using Some v
      by (simp add: case_gauge_def prim_defs state_after_def Let_def view_defs D(6-15) D' )
  qed
  show "Timer_at (heap st') (wm (worker st)) k = Timer_at (heap st) (wm (worker st)) k"
  proof (cases "fmlookup (map_objs (heap st) (gauges (wm (worker st)))) (MetricKey m)")
    case None
    show ?thesis
      unfolding st' using None v
      by (simp add: case_gauge_def prim_defs state_after_def Let_def view_defs D(6-15) D' view_fresh [OF D(16)] view_fresh [OF D(17)] view_fresh [OF D(18)] view_fresh [OF D(19)] view_fresh [OF D(20)])
  next
    case (Some p)
    show ?thesis
      unfolding st' using Some v
      by (simp add: case_gauge_def prim_defs state_after_def Let_def view_defs D(6-15) D' )
  qed
qed

subsection \<open>Case histogram\<close>

lemma case_histogram_worker:
  "worker (state_after (case_histogram ops st m)) =
     (worker st)\<lparr>logger := logger (worker (state_after (case_histogram ops st m)))\<rparr>"
  by (simp add: case_histogram_def prim_defs state_after_def Let_def split: interface.splits option.splits)

lemma case_histogram_kept:
  "wm (worker (state_after (case_histogram ops st m))) = wm (worker st)"
  "processed (worker (state_after (case_histogram ops st m))) = processed (worker st)"
  "imported (worker (state_after (case_histogram ops st m))) = imported (worker st)"
  by (subst case_histogram_worker, simp)+

lemma case_histogram_no_nil: "case_histogram ops st m \<noteq> Inl (NilDereference, s)"
  by (simp add: case_histogram_def prim_defs Let_def split: interface.splits option.splits)

lemma case_histogram_returned: "returned (case_histogram ops st m) \<longleftrightarrow> (\<exists>v. Value m = Float64 v)"
  by (simp add: case_histogram_def prim_defs Let_def returned_def split: interface.splits option.splits)

lemma case_histogram_wf:
  assumes "wf st"
  shows "wf (state_after (case_histogram ops st m))"
proof -
  note D = wfD [OF assms] and D' = wfD(6-15) [OF assms, symmetric]
  show ?thesis
    by (cases "Value m"; cases "fmlookup (map_objs (heap st) (histograms (wm (worker st)))) (MetricKey m)")
       (simp_all add: case_histogram_def prim_defs state_after_def Let_def wf_def D D' wf_intros less_Suc_eq)
qed

lemma case_histogram_frame: "frame st (state_after (case_histogram ops st m))"
proof -
  have "next_addr (heap st) \<le> next_addr (heap (state_after (case_histogram ops st m)))"
    by (cases "Value m"; cases "fmlookup (map_objs (heap st) (histograms (wm (worker st)))) (MetricKey m)")
       (simp_all add: case_histogram_def prim_defs state_after_def Let_def)
  moreover have "same_on ({..<next_addr (heap st)} - reach (heap st) (wm (worker st)))
      (heap st) (heap (state_after (case_histogram ops st m)))"
    by (cases "Value m"; cases "fmlookup (map_objs (heap st) (histograms (wm (worker st)))) (MetricKey m)")
       (auto simp: case_histogram_def prim_defs state_after_def Let_def same_on_def reach_def fmlookup_ran'_iff)
  moreover have "reach (heap (state_after (case_histogram ops st m)))
      (wm (worker (state_after (case_histogram ops st m)))) \<subseteq>
      reach (heap st) (wm (worker st)) \<union> {a. next_addr (heap st) \<le> a}"
    by (cases "Value m"; cases "fmlookup (map_objs (heap st) (histograms (wm (worker st)))) (MetricKey m)")
       (auto simp: case_histogram_def prim_defs state_after_def Let_def reach_def fmlookup_ran'_iff split: if_splits)
  ultimately show ?thesis
    by (simp add: frame_def)
qed

lemma case_histogram_pointer:
  assumes "case_histogram ops st m = Inr st'"
  shows "map_index (heap st') (histograms (wm (worker st))) (MetricKey m) =
           (case map_index (heap st) (histograms (wm (worker st))) (MetricKey m) of
              None \<Rightarrow> Some (next_addr (heap st)) | Some p \<Rightarrow> Some p)"
proof -
  from assms have st': "st' = state_after (case_histogram ops st m)"
    by (simp add: state_after_def)
  show ?thesis
    unfolding st'
    by (cases "Value m"; cases "fmlookup (map_objs (heap st) (histograms (wm (worker st)))) (MetricKey m)")
       (simp_all add: case_histogram_def prim_defs state_after_def Let_def)
qed


lemma case_histogram_views:
  assumes "wf st" "case_histogram ops st m = Inr st'"
  shows "Histogram_at (heap st') (wm (worker st)) k =
          (if k = MetricKey m
           then Some (Histo_Sample ops
                  (case Histogram_at (heap st) (wm (worker st)) k of
                     None \<Rightarrow> NewHist ops (Name k) (Tags m) | Some a \<Rightarrow> a)
                  (case Value m of Float64 v \<Rightarrow> v) (SampleRate m))
           else Histogram_at (heap st) (wm (worker st)) k)"
    and "Counter_at (heap st') (wm (worker st)) k = Counter_at (heap st) (wm (worker st)) k"
    and "Gauge_at (heap st') (wm (worker st)) k = Gauge_at (heap st) (wm (worker st)) k"
    and "Set_at (heap st') (wm (worker st)) k = Set_at (heap st) (wm (worker st)) k"
    and "Timer_at (heap st') (wm (worker st)) k = Timer_at (heap st) (wm (worker st)) k"
proof -
  note D = wfD [OF assms(1)] and D' = wfD(6-15) [OF assms(1), symmetric]
  from assms(2) have "returned (case_histogram ops st m)"
    by (simp add: returned_def)
  then obtain v where v: "Value m = Float64 v"
    by (auto simp: case_histogram_returned)
  from assms(2) have st': "st' = state_after (case_histogram ops st m)"
    by (simp add: state_after_def)
  show "Histogram_at (heap st') (wm (worker st)) k =
          (if k = MetricKey m
           then Some (Histo_Sample ops
                  (case Histogram_at (heap st) (wm (worker st)) k of
                     None \<Rightarrow> NewHist ops (Name k) (Tags m) | Some a \<Rightarrow> a)
                  (case Value m of Float64 v \<Rightarrow> v) (SampleRate m))
           else Histogram_at (heap st) (wm (worker st)) k)"
  proof (cases "fmlookup (map_objs (heap st) (histograms (wm (worker st)))) (MetricKey m)")
    case None
    show ?thesis
      unfolding st' using None v
      by (simp add: case_histogram_def prim_defs state_after_def Let_def view_defs D(6-15) D' view_fresh [OF D(16)] view_fresh [OF D(17)] view_fresh [OF D(18)] view_fresh [OF D(19)] view_fresh [OF D(20)])
  next
    case (Some p)
    show ?thesis
      unfolding st' using Some v
      by (simp add: case_histogram_def prim_defs state_after_def Let_def view_defs D(6-15) D' view_inj [OF D(23) Some])
  qed
  show "Counter_at (heap st') (wm (worker st)) k = Counter_at (heap st) (wm (worker st)) k"
  proof (cases "fmlookup (map_objs (heap st) (histograms (wm (worker st)))) (MetricKey m)")
    case None
    show ?thesis
      unfolding st' using None v
      by (simp add: case_histogram_def prim_defs state_after_def Let_def view_defs D(6-15) D' view_fresh [OF D(16)] view_fresh [OF D(17)] view_fresh [OF D(18)] view_fresh [OF D(19)] view_fresh [OF D(20)])
  next
    case (Some p)
    show ?thesis
      unfolding st' using Some v
      by (simp add: case_histogram_def prim_defs state_after_def Let_def view_defs D(6-15) D' view_apart [OF D(26) Some])
  qed
  show "Gauge_at (heap st') (wm (worker st)) k = Gauge_at (heap st) (wm (worker st)) k"
  proof (cases "fmlookup (map_objs (heap st) (histograms (wm (worker st)))) (MetricKey m)")
    case None
    show ?thesis
      unfolding st' using None v
      by (simp add: case_histogram_def prim_defs state_after_def Let_def view_defs D(6-15) D' view_fresh [OF D(16)] view_fresh [OF D(17)] view_fresh [OF D(18)] view_fresh [OF D(19)] view_fresh [OF D(20)])
  next
    case (Some p)
    show ?thesis
      unfolding st' using Some v
      by (simp add: case_histogram_def prim_defs state_after_def Let_def view_defs D(6-15) D' view_apart [OF D(26) Some])
  qed
  show "Set_at (heap st') (wm (worker st)) k = Set_at (heap st) (wm (worker st)) k"
  proof (cases "fmlookup (map_objs (heap st) (histograms (wm (worker st)))) (MetricKey m)")
    case None
    show ?thesis
      unfolding st' using None v
      by (simp add: case_histogram_def prim_defs state_after_def Let_def view_defs D(6-15) D' view_fresh [OF D(16)] view_fresh [OF D(17)] view_fresh [OF D(18)] view_fresh [OF D(19)] view_fresh [OF D(20)])
  next
    case (Some p)
    show ?thesis
      unfolding st' using Some v
      by (simp add: case_histogram_def prim_defs state_after_def Let_def view_defs D(6-15) D' view_apart [OF D(26) Some])
  qed
  show "Timer_at (heap st') (wm (worker st)) k = Timer_at (heap st) (wm (worker st)) k"
  proof (cases "fmlookup (map_objs (heap st) (histograms (wm (worker st)))) (MetricKey m)")
    case None
    show ?thesis
      unfolding st' using None v
      by (simp add: case_histogram_def prim_defs state_after_def Let_def view_defs D(6-15) D' view_fresh [OF D(16)] view_fresh [OF D(17)] view_fresh [OF D(18)] view_fresh [OF D(19)] view_fresh [OF D(20)])
  next
    case (Some p)
    show ?thesis
      unfolding st' using Some v
      by (simp add: case_histogram_def prim_defs state_after_def Let_def view_defs D(6-15) D' view_apart [OF D(26) Some])
  qed
qed

subsection \<open>Case set\<close>

lemma case_set_worker:
  "worker (state_after (case_set ops st m)) =
     (worker st)\<lparr>logger := logger (worker (state_after (case_set ops st m)))\<rparr>"
  by (simp add: case_set_def prim_defs state_after_def Let_def split: interface.splits option.splits)

lemma case_set_kept:
  "wm (worker (state_after (case_set ops st m))) = wm (worker st)"
  "processed (worker (state_after (case_set ops st m))) = processed (worker st)"
  "imported (worker (state_after (case_set ops st m))) = imported (worker st)"
  by (subst case_set_worker, simp)+

lemma case_set_no_nil: "case_set ops st m \<noteq> Inl (NilDereference, s)"
  by (simp add: case_set_def prim_defs Let_def split: interface.splits option.splits)

lemma case_set_returned: "returned (case_set ops st m) \<longleftrightarrow> (\<exists>v. Value m = String v)"
  by (simp add: case_set_def prim_defs Let_def returned_def split: interface.splits option.splits)

lemma case_set_wf:
  assumes "wf st"
  shows "wf (state_after (case_set ops st m))"
proof -
  note D = wfD [OF assms] and D' = wfD(6-15) [OF assms, symmetric]
  show ?thesis
    by (cases "Value m"; cases "fmlookup (map_objs (heap st) (sets (wm (worker st)))) (MetricKey m)")
       (simp_all add: case_set_def prim_defs state_after_def Let_def wf_def D D' wf_intros less_Suc_eq)
qed

lemma case_set_frame: "frame st (state_after (case_set ops st m))"
proof -
  have "next_addr (heap st) \<le> next_addr (heap (state_after (case_set ops st m)))"
    by (cases "Value m"; cases "fmlookup (map_objs (heap st) (sets (wm (worker st)))) (MetricKey m)")
       (simp_all add: case_set_def prim_defs state_after_def Let_def)
  moreover have "same_on ({..<next_addr (heap st)} - reach (heap st) (wm (worker st)))
      (heap st) (heap (state_after (case_set ops st m)))"
    by (cases "Value m"; cases "fmlookup (map_objs (heap st) (sets (wm (worker st)))) (MetricKey m)")
       (auto simp: case_set_def prim_defs state_after_def Let_def same_on_def reach_def fmlookup_ran'_iff)
  moreover have "reach (heap (state_after (case_set ops st m)))
      (wm (worker (state_after (case_set ops st m)))) \<subseteq>
      reach (heap st) (wm (worker st)) \<union> {a. next_addr (heap st) \<le> a}"
    by (cases "Value m"; cases "fmlookup (map_objs (heap st) (sets (wm (worker st)))) (MetricKey m)")
       (auto simp: case_set_def prim_defs state_after_def Let_def reach_def fmlookup_ran'_iff split: if_splits)
  ultimately show ?thesis
    by (simp add: frame_def)
qed

lemma case_set_pointer:
  assumes "case_set ops st m = Inr st'"
  shows "map_index (heap st') (sets (wm (worker st))) (MetricKey m) =
           (case map_index (heap st) (sets (wm (worker st))) (MetricKey m) of
              None \<Rightarrow> Some (next_addr (heap st)) | Some p \<Rightarrow> Some p)"
proof -
  from assms have st': "st' = state_after (case_set ops st m)"
    by (simp add: state_after_def)
  show ?thesis
    unfolding st'
    by (cases "Value m"; cases "fmlookup (map_objs (heap st) (sets (wm (worker st)))) (MetricKey m)")
       (simp_all add: case_set_def prim_defs state_after_def Let_def)
qed


lemma case_set_views:
  assumes "wf st" "case_set ops st m = Inr st'"
  shows "Set_at (heap st') (wm (worker st)) k =
          (if k = MetricKey m
           then Some (Set_Sample ops
                  (case Set_at (heap st) (wm (worker st)) k of
                     None \<Rightarrow> NewSet ops (Name k) (Tags m) | Some a \<Rightarrow> a)
                  (case Value m of String v \<Rightarrow> v) (SampleRate m))
           else Set_at (heap st) (wm (worker st)) k)"
    and "Counter_at (heap st') (wm (worker st)) k = Counter_at (heap st) (wm (worker st)) k"
    and "Gauge_at (heap st') (wm (worker st)) k = Gauge_at (heap st) (wm (worker st)) k"
    and "Histogram_at (heap st') (wm (worker st)) k = Histogram_at (heap st) (wm (worker st)) k"
    and "Timer_at (heap st') (wm (worker st)) k = Timer_at (heap st) (wm (worker st)) k"
proof -
  note D = wfD [OF assms(1)] and D' = wfD(6-15) [OF assms(1), symmetric]
  from assms(2) have "returned (case_set ops st m)"
    by (simp add: returned_def)
  then obtain v where v: "Value m = String v"
    by (auto simp: case_set_returned)
  from assms(2) have st': "st' = state_after (case_set ops st m)"
    by (simp add: state_after_def)
  show "Set_at (heap st') (wm (worker st)) k =
          (if k = MetricKey m
           then Some (Set_Sample ops
                  (case Set_at (heap st) (wm (worker st)) k of
                     None \<Rightarrow> NewSet ops (Name k) (Tags m) | Some a \<Rightarrow> a)
                  (case Value m of String v \<Rightarrow> v) (SampleRate m))
           else Set_at (heap st) (wm (worker st)) k)"
  proof (cases "fmlookup (map_objs (heap st) (sets (wm (worker st)))) (MetricKey m)")
    case None
    show ?thesis
      unfolding st' using None v
      by (simp add: case_set_def prim_defs state_after_def Let_def view_defs D(6-15) D' view_fresh [OF D(16)] view_fresh [OF D(17)] view_fresh [OF D(18)] view_fresh [OF D(19)] view_fresh [OF D(20)])
  next
    case (Some p)
    show ?thesis
      unfolding st' using Some v
      by (simp add: case_set_def prim_defs state_after_def Let_def view_defs D(6-15) D' view_inj [OF D(24) Some])
  qed
  show "Counter_at (heap st') (wm (worker st)) k = Counter_at (heap st) (wm (worker st)) k"
  proof (cases "fmlookup (map_objs (heap st) (sets (wm (worker st)))) (MetricKey m)")
    case None
    show ?thesis
      unfolding st' using None v
      by (simp add: case_set_def prim_defs state_after_def Let_def view_defs D(6-15) D' view_fresh [OF D(16)] view_fresh [OF D(17)] view_fresh [OF D(18)] view_fresh [OF D(19)] view_fresh [OF D(20)])
  next
    case (Some p)
    show ?thesis
      unfolding st' using Some v
      by (simp add: case_set_def prim_defs state_after_def Let_def view_defs D(6-15) D' )
  qed
  show "Gauge_at (heap st') (wm (worker st)) k = Gauge_at (heap st) (wm (worker st)) k"
  proof (cases "fmlookup (map_objs (heap st) (sets (wm (worker st)))) (MetricKey m)")
    case None
    show ?thesis
      unfolding st' using None v
      by (simp add: case_set_def prim_defs state_after_def Let_def view_defs D(6-15) D' view_fresh [OF D(16)] view_fresh [OF D(17)] view_fresh [OF D(18)] view_fresh [OF D(19)] view_fresh [OF D(20)])
  next
    case (Some p)
    show ?thesis
      unfolding st' using Some v
      by (simp add: case_set_def prim_defs state_after_def Let_def view_defs D(6-15) D' )
  qed
  show "Histogram_at (heap st') (wm (worker st)) k = Histogram_at (heap st) (wm (worker st)) k"
  proof (cases "fmlookup (map_objs (heap st) (sets (wm (worker st)))) (MetricKey m)")
    case None
    show ?thesis
      unfolding st' using None v
      by (simp add: case_set_def prim_defs state_after_def Let_def view_defs D(6-15) D' view_fresh [OF D(16)] view_fresh [OF D(17)] view_fresh [OF D(18)] view_fresh [OF D(19)] view_fresh [OF D(20)])
  next
    case (Some p)
    show ?thesis
      unfolding st' using Some v
      by (simp add: case_set_def prim_defs state_after_def Let_def view_defs D(6-15) D' )
  qed
  show "Timer_at (heap st') (wm (worker st)) k = Timer_at (heap st) (wm (worker st)) k"
  proof (cases "fmlookup (map_objs (heap st) (sets (wm (worker st)))) (MetricKey m)")
    case None
    show ?thesis
      unfolding st' using None v
      by (simp add: case_set_def prim_defs state_after_def Let_def view_defs D(6-15) D' view_fresh [OF D(16)] view_fresh [OF D(17)] view_fresh [OF D(18)] view_fresh [OF D(19)] view_fresh [OF D(20)])
  next
    case (Some p)
    show ?thesis
      unfolding st' using Some v
      by (simp add: case_set_def prim_defs state_after_def Let_def view_defs D(6-15) D' )
  qed
qed

subsection \<open>Case timer\<close>

lemma case_timer_worker:
  "worker (state_after (case_timer ops st m)) =
     (worker st)\<lparr>logger := logger (worker (state_after (case_timer ops st m)))\<rparr>"
  by (simp add: case_timer_def prim_defs state_after_def Let_def split: interface.splits option.splits)

lemma case_timer_kept:
  "wm (worker (state_after (case_timer ops st m))) = wm (worker st)"
  "processed (worker (state_after (case_timer ops st m))) = processed (worker st)"
  "imported (worker (state_after (case_timer ops st m))) = imported (worker st)"
  by (subst case_timer_worker, simp)+

lemma case_timer_no_nil: "case_timer ops st m \<noteq> Inl (NilDereference, s)"
  by (simp add: case_timer_def prim_defs Let_def split: interface.splits option.splits)

lemma case_timer_returned: "returned (case_timer ops st m) \<longleftrightarrow> (\<exists>v. Value m = Float64 v)"
  by (simp add: case_timer_def prim_defs Let_def returned_def split: interface.splits option.splits)

lemma case_timer_wf:
  assumes "wf st"
  shows "wf (state_after (case_timer ops st m))"
proof -
  note D = wfD [OF assms] and D' = wfD(6-15) [OF assms, symmetric]
  show ?thesis
    by (cases "Value m"; cases "fmlookup (map_objs (heap st) (timers (wm (worker st)))) (MetricKey m)")
       (simp_all add: case_timer_def prim_defs state_after_def Let_def wf_def D D' wf_intros less_Suc_eq)
qed

lemma case_timer_frame: "frame st (state_after (case_timer ops st m))"
proof -
  have "next_addr (heap st) \<le> next_addr (heap (state_after (case_timer ops st m)))"
    by (cases "Value m"; cases "fmlookup (map_objs (heap st) (timers (wm (worker st)))) (MetricKey m)")
       (simp_all add: case_timer_def prim_defs state_after_def Let_def)
  moreover have "same_on ({..<next_addr (heap st)} - reach (heap st) (wm (worker st)))
      (heap st) (heap (state_after (case_timer ops st m)))"
    by (cases "Value m"; cases "fmlookup (map_objs (heap st) (timers (wm (worker st)))) (MetricKey m)")
       (auto simp: case_timer_def prim_defs state_after_def Let_def same_on_def reach_def fmlookup_ran'_iff)
  moreover have "reach (heap (state_after (case_timer ops st m)))
      (wm (worker (state_after (case_timer ops st m)))) \<subseteq>
      reach (heap st) (wm (worker st)) \<union> {a. next_addr (heap st) \<le> a}"
    by (cases "Value m"; cases "fmlookup (map_objs (heap st) (timers (wm (worker st)))) (MetricKey m)")
       (auto simp: case_timer_def prim_defs state_after_def Let_def reach_def fmlookup_ran'_iff split: if_splits)
  ultimately show ?thesis
    by (simp add: frame_def)
qed

lemma case_timer_pointer:
  assumes "case_timer ops st m = Inr st'"
  shows "map_index (heap st') (timers (wm (worker st))) (MetricKey m) =
           (case map_index (heap st) (timers (wm (worker st))) (MetricKey m) of
              None \<Rightarrow> Some (next_addr (heap st)) | Some p \<Rightarrow> Some p)"
proof -
  from assms have st': "st' = state_after (case_timer ops st m)"
    by (simp add: state_after_def)
  show ?thesis
    unfolding st'
    by (cases "Value m"; cases "fmlookup (map_objs (heap st) (timers (wm (worker st)))) (MetricKey m)")
       (simp_all add: case_timer_def prim_defs state_after_def Let_def)
qed


lemma case_timer_views:
  assumes "wf st" "case_timer ops st m = Inr st'"
  shows "Timer_at (heap st') (wm (worker st)) k =
          (if k = MetricKey m
           then Some (Histo_Sample ops
                  (case Timer_at (heap st) (wm (worker st)) k of
                     None \<Rightarrow> NewHist ops (Name k) (Tags m) | Some a \<Rightarrow> a)
                  (case Value m of Float64 v \<Rightarrow> v) (SampleRate m))
           else Timer_at (heap st) (wm (worker st)) k)"
    and "Counter_at (heap st') (wm (worker st)) k = Counter_at (heap st) (wm (worker st)) k"
    and "Gauge_at (heap st') (wm (worker st)) k = Gauge_at (heap st) (wm (worker st)) k"
    and "Histogram_at (heap st') (wm (worker st)) k = Histogram_at (heap st) (wm (worker st)) k"
    and "Set_at (heap st') (wm (worker st)) k = Set_at (heap st) (wm (worker st)) k"
proof -
  note D = wfD [OF assms(1)] and D' = wfD(6-15) [OF assms(1), symmetric]
  from assms(2) have "returned (case_timer ops st m)"
    by (simp add: returned_def)
  then obtain v where v: "Value m = Float64 v"
    by (auto simp: case_timer_returned)
  from assms(2) have st': "st' = state_after (case_timer ops st m)"
    by (simp add: state_after_def)
  show "Timer_at (heap st') (wm (worker st)) k =
          (if k = MetricKey m
           then Some (Histo_Sample ops
                  (case Timer_at (heap st) (wm (worker st)) k of
                     None \<Rightarrow> NewHist ops (Name k) (Tags m) | Some a \<Rightarrow> a)
                  (case Value m of Float64 v \<Rightarrow> v) (SampleRate m))
           else Timer_at (heap st) (wm (worker st)) k)"
  proof (cases "fmlookup (map_objs (heap st) (timers (wm (worker st)))) (MetricKey m)")
    case None
    show ?thesis
      unfolding st' using None v
      by (simp add: case_timer_def prim_defs state_after_def Let_def view_defs D(6-15) D' view_fresh [OF D(16)] view_fresh [OF D(17)] view_fresh [OF D(18)] view_fresh [OF D(19)] view_fresh [OF D(20)])
  next
    case (Some p)
    show ?thesis
      unfolding st' using Some v
      by (simp add: case_timer_def prim_defs state_after_def Let_def view_defs D(6-15) D' view_inj [OF D(25) Some])
  qed
  show "Counter_at (heap st') (wm (worker st)) k = Counter_at (heap st) (wm (worker st)) k"
  proof (cases "fmlookup (map_objs (heap st) (timers (wm (worker st)))) (MetricKey m)")
    case None
    show ?thesis
      unfolding st' using None v
      by (simp add: case_timer_def prim_defs state_after_def Let_def view_defs D(6-15) D' view_fresh [OF D(16)] view_fresh [OF D(17)] view_fresh [OF D(18)] view_fresh [OF D(19)] view_fresh [OF D(20)])
  next
    case (Some p)
    show ?thesis
      unfolding st' using Some v
      by (simp add: case_timer_def prim_defs state_after_def Let_def view_defs D(6-15) D' view_apart' [OF D(26) Some])
  qed
  show "Gauge_at (heap st') (wm (worker st)) k = Gauge_at (heap st) (wm (worker st)) k"
  proof (cases "fmlookup (map_objs (heap st) (timers (wm (worker st)))) (MetricKey m)")
    case None
    show ?thesis
      unfolding st' using None v
      by (simp add: case_timer_def prim_defs state_after_def Let_def view_defs D(6-15) D' view_fresh [OF D(16)] view_fresh [OF D(17)] view_fresh [OF D(18)] view_fresh [OF D(19)] view_fresh [OF D(20)])
  next
    case (Some p)
    show ?thesis
      unfolding st' using Some v
      by (simp add: case_timer_def prim_defs state_after_def Let_def view_defs D(6-15) D' view_apart' [OF D(26) Some])
  qed
  show "Histogram_at (heap st') (wm (worker st)) k = Histogram_at (heap st) (wm (worker st)) k"
  proof (cases "fmlookup (map_objs (heap st) (timers (wm (worker st)))) (MetricKey m)")
    case None
    show ?thesis
      unfolding st' using None v
      by (simp add: case_timer_def prim_defs state_after_def Let_def view_defs D(6-15) D' view_fresh [OF D(16)] view_fresh [OF D(17)] view_fresh [OF D(18)] view_fresh [OF D(19)] view_fresh [OF D(20)])
  next
    case (Some p)
    show ?thesis
      unfolding st' using Some v
      by (simp add: case_timer_def prim_defs state_after_def Let_def view_defs D(6-15) D' view_apart' [OF D(26) Some])
  qed
  show "Set_at (heap st') (wm (worker st)) k = Set_at (heap st) (wm (worker st)) k"
  proof (cases "fmlookup (map_objs (heap st) (timers (wm (worker st)))) (MetricKey m)")
    case None
    show ?thesis
      unfolding st' using None v
      by (simp add: case_timer_def prim_defs state_after_def Let_def view_defs D(6-15) D' view_fresh [OF D(16)] view_fresh [OF D(17)] view_fresh [OF D(18)] view_fresh [OF D(19)] view_fresh [OF D(20)])
  next
    case (Some p)
    show ?thesis
      unfolding st' using Some v
      by (simp add: case_timer_def prim_defs state_after_def Let_def view_defs D(6-15) D' view_apart' [OF D(26) Some])
  qed
qed
section \<open>The operations of the worker\<close>

subsection \<open>What the invariant and the frame depend on\<close>

lemma wf_cong: "heap st' = heap st \<Longrightarrow> wm (worker st') = wm (worker st) \<Longrightarrow> wf st' = wf st"
  by (simp add: wf_def)

lemma frame_cong_left:
  "heap st0 = heap st \<Longrightarrow> wm (worker st0) = wm (worker st) \<Longrightarrow> frame st0 st' = frame st st'"
  by (simp add: frame_def)

lemma frame_trans:
  assumes "frame st st'" "frame st' st''" "wf st"
  shows "frame st st''"
proof -
  let ?n = "next_addr (heap st)" and ?n' = "next_addr (heap st')"
  let ?R = "reach (heap st) (wm (worker st))" and ?R' = "reach (heap st') (wm (worker st'))"
  from assms(1) have 1: "?n \<le> ?n'" "same_on ({..<?n} - ?R) (heap st) (heap st')"
    "?R' \<subseteq> ?R \<union> {a. ?n \<le> a}"
    by (simp_all add: frame_def)
  from assms(2) have 2: "?n' \<le> next_addr (heap st'')"
    "same_on ({..<?n'} - ?R') (heap st') (heap st'')"
    "reach (heap st'') (wm (worker st'')) \<subseteq> ?R' \<union> {a. ?n' \<le> a}"
    by (simp_all add: frame_def)
  have sub: "{..<?n} - ?R \<subseteq> {..<?n'} - ?R'"
    using 1(1) 1(3) by auto
  have "same_on ({..<?n} - ?R) (heap st) (heap st'')"
    using 1(2) same_on_mono [OF 2(2) sub] by (rule same_on_trans)
  moreover have "reach (heap st'') (wm (worker st'')) \<subseteq> ?R \<union> {a. ?n \<le> a}"
    using 1(1) 1(3) 2(3) by fastforce
  ultimately show ?thesis
    using 1(1) 2(1) by (simp add: frame_def)
qed

subsection \<open>The set case of ImportMetric\<close>

lemma import_set_worker:
  "worker (state_after (import_set ops st j)) =
     (worker st)\<lparr>logger := logger (worker (state_after (import_set ops st j)))\<rparr>"
  by (simp add: import_set_def prim_defs state_after_def Let_def case_prod_beta
      split: option.splits)

lemma import_set_returned: "returned (import_set ops st j)"
  by (simp add: import_set_def prim_defs Let_def returned_def case_prod_beta
      split: option.splits)

lemma import_set_wf:
  assumes "wf st"
  shows "wf (state_after (import_set ops st j))"
proof -
  note D = wfD [OF assms] and D' = wfD(6-15) [OF assms, symmetric]
  show ?thesis
    by (cases "fmlookup (map_objs (heap st) (sets (wm (worker st)))) (MetricKey_J j)")
       (simp_all add: import_set_def prim_defs state_after_def Let_def case_prod_beta wf_def
          D D' wf_intros less_Suc_eq split: option.splits)
qed

lemma import_set_frame: "frame st (state_after (import_set ops st j))"
proof -
  let ?L = "fmlookup (map_objs (heap st) (sets (wm (worker st)))) (MetricKey_J j)"
  have "next_addr (heap st) \<le> next_addr (heap (state_after (import_set ops st j)))"
    by (cases ?L)
       (simp_all add: import_set_def prim_defs state_after_def Let_def case_prod_beta
          split: option.splits)
  moreover have "same_on ({..<next_addr (heap st)} - reach (heap st) (wm (worker st)))
      (heap st) (heap (state_after (import_set ops st j)))"
    by (cases ?L)
       (auto simp: import_set_def prim_defs state_after_def Let_def case_prod_beta same_on_def
          reach_def fmlookup_ran'_iff split: option.splits)
  moreover have "reach (heap (state_after (import_set ops st j)))
      (wm (worker (state_after (import_set ops st j)))) \<subseteq>
      reach (heap st) (wm (worker st)) \<union> {a. next_addr (heap st) \<le> a}"
    by (cases ?L)
       (auto simp: import_set_def prim_defs state_after_def Let_def case_prod_beta reach_def
          fmlookup_ran'_iff split: option.splits if_splits)
  ultimately show ?thesis
    by (simp add: frame_def)
qed

text \<open>
  The set of the imported identity becomes what \<open>Combine\<close> leaves of it, where a missing
  set is created first; nothing else changes.
\<close>

lemma import_set_views:
  assumes "wf st" "import_set ops st j = Inr st'"
  shows "Set_at (heap st') (wm (worker st)) k =
          (if k = MetricKey_J j
           then Some (fst (Set_Combine ops
                  (case Set_at (heap st) (wm (worker st)) k of
                     None \<Rightarrow> NewSet ops (Name k) (Tags_J j) | Some a \<Rightarrow> a)
                  (Value_J j)))
           else Set_at (heap st) (wm (worker st)) k)"
    and "Counter_at (heap st') (wm (worker st)) k = Counter_at (heap st) (wm (worker st)) k"
    and "Gauge_at (heap st') (wm (worker st)) k = Gauge_at (heap st) (wm (worker st)) k"
    and "Histogram_at (heap st') (wm (worker st)) k = Histogram_at (heap st) (wm (worker st)) k"
    and "Timer_at (heap st') (wm (worker st)) k = Timer_at (heap st) (wm (worker st)) k"
proof -
  note D = wfD [OF assms(1)] and D' = wfD(6-15) [OF assms(1), symmetric]
  let ?L = "fmlookup (map_objs (heap st) (sets (wm (worker st)))) (MetricKey_J j)"
  note unf = import_set_def prim_defs state_after_def Let_def case_prod_beta view_defs
  from assms(2) have st': "st' = state_after (import_set ops st j)"
    by (simp add: state_after_def)
  show "Set_at (heap st') (wm (worker st)) k =
          (if k = MetricKey_J j
           then Some (fst (Set_Combine ops
                  (case Set_at (heap st) (wm (worker st)) k of
                     None \<Rightarrow> NewSet ops (Name k) (Tags_J j) | Some a \<Rightarrow> a)
                  (Value_J j)))
           else Set_at (heap st) (wm (worker st)) k)"
  proof (cases ?L)
    case None
    show ?thesis
      unfolding st' using None
      by (simp add: unf D(6-15) D' view_fresh [OF D(19)] split: option.splits)
  next
    case (Some p)
    show ?thesis
      unfolding st' using Some
      by (simp add: unf D(6-15) D' view_inj [OF D(24) Some] split: option.splits)
  qed
  show "Counter_at (heap st') (wm (worker st)) k = Counter_at (heap st) (wm (worker st)) k"
    unfolding st' by (cases ?L) (simp_all add: unf D(6-15) D' split: option.splits)
  show "Gauge_at (heap st') (wm (worker st)) k = Gauge_at (heap st) (wm (worker st)) k"
    unfolding st' by (cases ?L) (simp_all add: unf D(6-15) D' split: option.splits)
  show "Histogram_at (heap st') (wm (worker st)) k = Histogram_at (heap st) (wm (worker st)) k"
    unfolding st' by (cases ?L) (simp_all add: unf D(6-15) D' split: option.splits)
  show "Timer_at (heap st') (wm (worker st)) k = Timer_at (heap st) (wm (worker st)) k"
    unfolding st' by (cases ?L) (simp_all add: unf D(6-15) D' split: option.splits)
qed

text \<open>What the set case logs: the creation of a set, then the error of \<open>Combine\<close>.\<close>

lemma import_set_logger:
  "logger (worker (state_after (import_set ops st j))) =
     logger (worker st) @
     (case Set_at (heap st) (wm (worker st)) (MetricKey_J j) of
        None \<Rightarrow> [Entry DebugLevel (FieldString ''name'' (Name (MetricKey_J j))) ''New set'']
      | Some a \<Rightarrow> []) @
     (case snd (Set_Combine ops
              (case Set_at (heap st) (wm (worker st)) (MetricKey_J j) of
                 None \<Rightarrow> NewSet ops (Name (MetricKey_J j)) (Tags_J j) | Some a \<Rightarrow> a)
              (Value_J j)) of
        None \<Rightarrow> []
      | Some e \<Rightarrow> [Entry ErrorLevel (FieldError e) ''Could not merge sets''])"
  by (cases "fmlookup (map_objs (heap st) (sets (wm (worker st)))) (MetricKey_J j)")
     (simp_all add: import_set_def prim_defs state_after_def Let_def case_prod_beta view_defs
        split: option.splits)

subsection \<open>ProcessMetric\<close>


lemma state_after_Inr: "state_after (Inr st) = st"
  by (simp add: state_after_def)

lemma returned_Inr: "returned r \<longleftrightarrow> (\<exists>st. r = Inr st)"
  by (cases r) (simp_all add: returned_def)

lemma returned_state_after: "returned r \<Longrightarrow> r = Inr (state_after r)"
  by (cases r) (simp_all add: returned_def state_after_def)

lemma known_type_iff:
  "known_type t \<longleftrightarrow>
     t = ''counter'' \<or> t = ''gauge'' \<or> t = ''histogram'' \<or> t = ''set'' \<or> t = ''timer''"
  by (simp add: known_type_def)

text \<open>The switch of \<open>ProcessMetric\<close>, one equation for each case.\<close>

lemma ProcessMetric_cases:
  "Type (MetricKey m) = ''counter'' \<Longrightarrow> ProcessMetric ops st m = case_counter ops (st\<lparr>worker := (worker st)\<lparr>processed := processed (worker st) + 1\<rparr>\<rparr>) m"
  "Type (MetricKey m) = ''gauge'' \<Longrightarrow> ProcessMetric ops st m = case_gauge ops (st\<lparr>worker := (worker st)\<lparr>processed := processed (worker st) + 1\<rparr>\<rparr>) m"
  "Type (MetricKey m) = ''histogram'' \<Longrightarrow> ProcessMetric ops st m = case_histogram ops (st\<lparr>worker := (worker st)\<lparr>processed := processed (worker st) + 1\<rparr>\<rparr>) m"
  "Type (MetricKey m) = ''set'' \<Longrightarrow> ProcessMetric ops st m = case_set ops (st\<lparr>worker := (worker st)\<lparr>processed := processed (worker st) + 1\<rparr>\<rparr>) m"
  "Type (MetricKey m) = ''timer'' \<Longrightarrow> ProcessMetric ops st m = case_timer ops (st\<lparr>worker := (worker st)\<lparr>processed := processed (worker st) + 1\<rparr>\<rparr>) m"
  "\<not> known_type (Type (MetricKey m)) \<Longrightarrow>
   ProcessMetric ops st m =
     Inr (log_entry_to (st\<lparr>worker := (worker st)\<lparr>processed := processed (worker st) + 1\<rparr>\<rparr>) (Entry ErrorLevel (FieldString ''type'' (Type (MetricKey m)))
            ''Unknown metric type for processing''))"
  by (simp_all add: ProcessMetric_def Let_def known_type_iff)


lemma ProcessMetric_worker:
  "worker (state_after (ProcessMetric ops st m)) =
     (worker st)\<lparr>processed := processed (worker st) + 1,
                 logger := logger (worker (state_after (ProcessMetric ops st m)))\<rparr>"
proof -
  let ?st = "(st\<lparr>worker := (worker st)\<lparr>processed := processed (worker st) + 1\<rparr>\<rparr>)"
  have *: "worker (state_after r) =
             (worker st)\<lparr>processed := processed (worker st) + 1,
                         logger := logger (worker (state_after r))\<rparr>"
    if "worker (state_after r) = (worker ?st)\<lparr>logger := logger (worker (state_after r))\<rparr>"
    for r :: "('a, 'b, 'c, 'd) outcome"
  proof -
    have "(worker ?st)\<lparr>logger := l\<rparr> =
          (worker st)\<lparr>processed := processed (worker st) + 1, logger := l\<rparr>" for l
      by simp
    with that show ?thesis
      by simp
  qed
  consider "Type (MetricKey m) = ''counter''" | "Type (MetricKey m) = ''gauge''"
    | "Type (MetricKey m) = ''histogram''" | "Type (MetricKey m) = ''set''"
    | "Type (MetricKey m) = ''timer''" | "\<not> known_type (Type (MetricKey m))"
    by (auto simp: known_type_iff)
  then show ?thesis
  proof cases
    case 1
    show ?thesis
      unfolding ProcessMetric_cases(1) [OF 1] by (rule * [OF case_counter_worker])
  next
    case 2
    show ?thesis
      unfolding ProcessMetric_cases(2) [OF 2] by (rule * [OF case_gauge_worker])
  next
    case 3
    show ?thesis
      unfolding ProcessMetric_cases(3) [OF 3] by (rule * [OF case_histogram_worker])
  next
    case 4
    show ?thesis
      unfolding ProcessMetric_cases(4) [OF 4] by (rule * [OF case_set_worker])
  next
    case 5
    show ?thesis
      unfolding ProcessMetric_cases(5) [OF 5] by (rule * [OF case_timer_worker])
  next
    case 6
    show ?thesis
      unfolding ProcessMetric_cases(6) [OF 6]
      by (simp add: state_after_def log_entry_to_def)
  qed
qed

lemma ProcessMetric_no_nil: "ProcessMetric ops st m \<noteq> Inl (NilDereference, s)"
  by (simp add: ProcessMetric_def Let_def case_counter_no_nil case_gauge_no_nil
      case_histogram_no_nil case_set_no_nil case_timer_no_nil)

lemma ProcessMetric_returned: "returned (ProcessMetric ops st m) \<longleftrightarrow> value_agrees m"
proof -
  consider "Type (MetricKey m) = ''counter''" | "Type (MetricKey m) = ''gauge''"
    | "Type (MetricKey m) = ''histogram''" | "Type (MetricKey m) = ''set''"
    | "Type (MetricKey m) = ''timer''" | "\<not> known_type (Type (MetricKey m))"
    by (auto simp: known_type_iff)
  then show ?thesis
  proof cases
    case 1
    then show ?thesis
      by (simp add: ProcessMetric_cases(1) case_counter_returned value_agrees_def
          split: interface.splits)
  next
    case 2
    then show ?thesis
      by (simp add: ProcessMetric_cases(2) case_gauge_returned value_agrees_def
          split: interface.splits)
  next
    case 3
    then show ?thesis
      by (simp add: ProcessMetric_cases(3) case_histogram_returned value_agrees_def
          split: interface.splits)
  next
    case 4
    then show ?thesis
      by (simp add: ProcessMetric_cases(4) case_set_returned value_agrees_def
          split: interface.splits)
  next
    case 5
    then show ?thesis
      by (simp add: ProcessMetric_cases(5) case_timer_returned value_agrees_def
          split: interface.splits)
  next
    case 6
    then show ?thesis
      by (simp add: ProcessMetric_cases(6) returned_def value_agrees_def known_type_iff)
  qed
qed

lemma ProcessMetric_wf:
  assumes "wf st"
  shows "wf (state_after (ProcessMetric ops st m))"
proof -
  let ?st = "(st\<lparr>worker := (worker st)\<lparr>processed := processed (worker st) + 1\<rparr>\<rparr>)"
  have wf': "wf ?st"
    using assms by (simp add: wf_cong [of ?st st])
  show ?thesis
    by (simp add: ProcessMetric_def Let_def case_counter_wf [OF wf'] case_gauge_wf [OF wf']
        case_histogram_wf [OF wf'] case_set_wf [OF wf'] case_timer_wf [OF wf'])
       (simp add: state_after_def log_entry_to_def wf_cong [of _ st] assms)
qed

lemma ProcessMetric_frame: "frame st (state_after (ProcessMetric ops st m))"
proof -
  let ?st = "(st\<lparr>worker := (worker st)\<lparr>processed := processed (worker st) + 1\<rparr>\<rparr>)"
  have *: "frame ?st st' = frame st st'" for st'
    by (rule frame_cong_left) simp_all
  consider "Type (MetricKey m) = ''counter''" | "Type (MetricKey m) = ''gauge''"
    | "Type (MetricKey m) = ''histogram''" | "Type (MetricKey m) = ''set''"
    | "Type (MetricKey m) = ''timer''" | "\<not> known_type (Type (MetricKey m))"
    by (auto simp: known_type_iff)
  then show ?thesis
  proof cases
    case 1
    show ?thesis
      unfolding ProcessMetric_cases(1) [OF 1] using case_counter_frame [of ?st ops m]
      by (simp only: *)
  next
    case 2
    show ?thesis
      unfolding ProcessMetric_cases(2) [OF 2] using case_gauge_frame [of ?st ops m]
      by (simp only: *)
  next
    case 3
    show ?thesis
      unfolding ProcessMetric_cases(3) [OF 3] using case_histogram_frame [of ?st ops m]
      by (simp only: *)
  next
    case 4
    show ?thesis
      unfolding ProcessMetric_cases(4) [OF 4] using case_set_frame [of ?st ops m]
      by (simp only: *)
  next
    case 5
    show ?thesis
      unfolding ProcessMetric_cases(5) [OF 5] using case_timer_frame [of ?st ops m]
      by (simp only: *)
  next
    case 6
    have "frame st ?st"
      using frame_refl [of ?st] by (simp only: *)
    then show ?thesis
      unfolding ProcessMetric_cases(6) [OF 6] state_after_Inr by (rule frame_logger)
  qed
qed


text \<open>
  One sample changes the accumulator of its own identity by one step of the fold and
  leaves the accumulator of every other identity as it is.
\<close>

lemma ProcessMetric_accumulator:
  assumes "wf st" "ProcessMetric ops st m = Inr st'"
  shows "accumulator_at (heap st') (wm (worker st')) k =
           (if MetricKey m = k then sample_step ops (accumulator_at (heap st) (wm (worker st)) k) m
            else accumulator_at (heap st) (wm (worker st)) k)"
proof -
  let ?st = "(st\<lparr>worker := (worker st)\<lparr>processed := processed (worker st) + 1\<rparr>\<rparr>)"
  have wf': "wf ?st"
    using assms(1) by (simp add: wf_cong [of ?st st])
  consider "Type (MetricKey m) = ''counter''" | "Type (MetricKey m) = ''gauge''"
    | "Type (MetricKey m) = ''histogram''" | "Type (MetricKey m) = ''set''"
    | "Type (MetricKey m) = ''timer''" | "\<not> known_type (Type (MetricKey m))"
    by (auto simp: known_type_iff)
  then show ?thesis
  proof cases
  case 1
    from assms(2) have r: "case_counter ops ?st m = Inr st'"
      by (simp add: ProcessMetric_cases(1) [OF 1])
    then have "returned (case_counter ops ?st m)"
      by (simp add: returned_def)
    then obtain v where v: "Value m = Float64 v"
      by (auto simp: case_counter_returned)
    note V = case_counter_views [OF wf' r, simplified]
    from r have x: "wm (worker st') = wm (worker st)"
      using case_counter_kept(1) [of ops ?st m] by (simp add: state_after_def)
    show ?thesis
      by (cases "Counter_at (heap st) (wm (worker st)) k")
         (auto simp: accumulator_at_def sample_step_def new_accumulator_def x V 1 v)
  next
  case 2
    from assms(2) have r: "case_gauge ops ?st m = Inr st'"
      by (simp add: ProcessMetric_cases(2) [OF 2])
    then have "returned (case_gauge ops ?st m)"
      by (simp add: returned_def)
    then obtain v where v: "Value m = Float64 v"
      by (auto simp: case_gauge_returned)
    note V = case_gauge_views [OF wf' r, simplified]
    from r have x: "wm (worker st') = wm (worker st)"
      using case_gauge_kept(1) [of ops ?st m] by (simp add: state_after_def)
    show ?thesis
      by (cases "Gauge_at (heap st) (wm (worker st)) k")
         (auto simp: accumulator_at_def sample_step_def new_accumulator_def x V 2 v)
  next
  case 3
    from assms(2) have r: "case_histogram ops ?st m = Inr st'"
      by (simp add: ProcessMetric_cases(3) [OF 3])
    then have "returned (case_histogram ops ?st m)"
      by (simp add: returned_def)
    then obtain v where v: "Value m = Float64 v"
      by (auto simp: case_histogram_returned)
    note V = case_histogram_views [OF wf' r, simplified]
    from r have x: "wm (worker st') = wm (worker st)"
      using case_histogram_kept(1) [of ops ?st m] by (simp add: state_after_def)
    show ?thesis
      by (cases "Histogram_at (heap st) (wm (worker st)) k")
         (auto simp: accumulator_at_def sample_step_def new_accumulator_def x V 3 v)
  next
  case 4
    from assms(2) have r: "case_set ops ?st m = Inr st'"
      by (simp add: ProcessMetric_cases(4) [OF 4])
    then have "returned (case_set ops ?st m)"
      by (simp add: returned_def)
    then obtain v where v: "Value m = String v"
      by (auto simp: case_set_returned)
    note V = case_set_views [OF wf' r, simplified]
    from r have x: "wm (worker st') = wm (worker st)"
      using case_set_kept(1) [of ops ?st m] by (simp add: state_after_def)
    show ?thesis
      by (cases "Set_at (heap st) (wm (worker st)) k")
         (auto simp: accumulator_at_def sample_step_def new_accumulator_def x V 4 v)
  next
  case 5
    from assms(2) have r: "case_timer ops ?st m = Inr st'"
      by (simp add: ProcessMetric_cases(5) [OF 5])
    then have "returned (case_timer ops ?st m)"
      by (simp add: returned_def)
    then obtain v where v: "Value m = Float64 v"
      by (auto simp: case_timer_returned)
    note V = case_timer_views [OF wf' r, simplified]
    from r have x: "wm (worker st') = wm (worker st)"
      using case_timer_kept(1) [of ops ?st m] by (simp add: state_after_def)
    show ?thesis
      by (cases "Timer_at (heap st) (wm (worker st)) k")
         (auto simp: accumulator_at_def sample_step_def new_accumulator_def x V 5 v)
  next
    case 6
    from assms(2) have "st' = log_entry_to ?st (Entry ErrorLevel
        (FieldString ''type'' (Type (MetricKey m))) ''Unknown metric type for processing'')"
      by (simp add: ProcessMetric_cases(6) [OF 6])
    then have "heap st' = heap st" "wm (worker st') = wm (worker st)"
      by (simp_all add: log_entry_to_def)
    with 6 show ?thesis
      by (auto simp: accumulator_at_def sample_step_def new_accumulator_def known_type_iff
          view_defs Let_def)
  qed
qed

subsection \<open>ImportMetric\<close>

lemma ImportMetric_cases:
  "Type (MetricKey_J j) = ''set'' \<Longrightarrow>
   ImportMetric ops st j =
     import_set ops (st\<lparr>worker := (worker st)\<lparr>imported := imported (worker st) + 1\<rparr>\<rparr>) j"
  "Type (MetricKey_J j) \<noteq> ''set'' \<Longrightarrow>
   ImportMetric ops st j =
     Inr (log_entry_to (st\<lparr>worker := (worker st)\<lparr>imported := imported (worker st) + 1\<rparr>\<rparr>)
            (Entry ErrorLevel (FieldString ''type'' (Type (MetricKey_J j)))
               ''Unknown metric type for importing''))"
  by (simp_all add: ImportMetric_def Let_def)

lemma ImportMetric_worker:
  "worker (state_after (ImportMetric ops st j)) =
     (worker st)\<lparr>imported := imported (worker st) + 1,
                 logger := logger (worker (state_after (ImportMetric ops st j)))\<rparr>"
proof (cases "Type (MetricKey_J j) = ''set''")
  case True
  let ?st = "st\<lparr>worker := (worker st)\<lparr>imported := imported (worker st) + 1\<rparr>\<rparr>"
  have "(worker ?st)\<lparr>logger := l\<rparr> =
        (worker st)\<lparr>imported := imported (worker st) + 1, logger := l\<rparr>" for l
    by simp
  with import_set_worker [of ops ?st j] show ?thesis
    unfolding ImportMetric_cases(1) [OF True] by simp
next
  case False
  show ?thesis
    unfolding ImportMetric_cases(2) [OF False]
    by (simp add: state_after_def log_entry_to_def)
qed

lemma ImportMetric_returned: "returned (ImportMetric ops st j)"
  by (simp add: ImportMetric_def Let_def import_set_returned) (simp add: returned_def)

lemma ImportMetric_wf:
  assumes "wf st"
  shows "wf (state_after (ImportMetric ops st j))"
proof -
  let ?st = "st\<lparr>worker := (worker st)\<lparr>imported := imported (worker st) + 1\<rparr>\<rparr>"
  have wf': "wf ?st"
    using assms by (simp add: wf_cong [of ?st st])
  show ?thesis
    by (simp add: ImportMetric_def Let_def import_set_wf [OF wf'])
       (simp add: state_after_def log_entry_to_def wf_cong [of _ st] assms)
qed

lemma ImportMetric_frame: "frame st (state_after (ImportMetric ops st j))"
proof (cases "Type (MetricKey_J j) = ''set''")
  let ?st = "st\<lparr>worker := (worker st)\<lparr>imported := imported (worker st) + 1\<rparr>\<rparr>"
  have *: "frame ?st st' = frame st st'" for st'
    by (rule frame_cong_left) simp_all
  case True
  show ?thesis
    unfolding ImportMetric_cases(1) [OF True] using import_set_frame [of ?st ops j]
    by (simp only: *)
next
  let ?st = "st\<lparr>worker := (worker st)\<lparr>imported := imported (worker st) + 1\<rparr>\<rparr>"
  have *: "frame ?st st' = frame st st'" for st'
    by (rule frame_cong_left) simp_all
  case False
  have "frame st ?st"
    using frame_refl [of ?st] by (simp only: *)
  then show ?thesis
    unfolding ImportMetric_cases(2) [OF False] state_after_Inr by (rule frame_logger)
qed

subsection \<open>NewWorkerMetrics, NewWorker and Flush\<close>

lemma NewWorkerMetrics_eq:
  "NewWorkerMetrics h =
     (\<lparr>counters = next_addr h, gauges = Suc (next_addr h),
       histograms = Suc (Suc (next_addr h)), sets = Suc (Suc (Suc (next_addr h))),
       timers = Suc (Suc (Suc (Suc (next_addr h))))\<rparr>,
      h\<lparr>next_addr := Suc (Suc (Suc (Suc (Suc (next_addr h))))),
        map_objs := (map_objs h)
          (next_addr h := fmempty, Suc (next_addr h) := fmempty,
           Suc (Suc (next_addr h)) := fmempty, Suc (Suc (Suc (next_addr h))) := fmempty,
           Suc (Suc (Suc (Suc (next_addr h)))) := fmempty)\<rparr>)"
  by (simp add: NewWorkerMetrics_def make_map_def)

lemma NewWorkerMetrics_empty:
  "all_empty (snd (NewWorkerMetrics h)) (fst (NewWorkerMetrics h))"
  by (simp add: NewWorkerMetrics_eq all_empty_def)

lemma wf_fresh:
  assumes "heap st' = snd (NewWorkerMetrics h)" "wm (worker st') = fst (NewWorkerMetrics h)"
  shows "wf st'"
  using assms
  by (simp add: wf_def NewWorkerMetrics_eq below_empty inj_map_empty apart_empty)

lemma NewWorker_wf: "wf (NewWorker h i)"
  by (rule wf_fresh [of _ h]) (simp_all add: NewWorker_def case_prod_beta)

lemma NewWorker_worker:
  "worker (NewWorker h i) =
     \<lparr>id_w = i, WorkChan = [], QuitChan = False, processed = 0, imported = 0,
      stats = [], logger = [], wm = fst (NewWorkerMetrics h)\<rparr>"
  by (simp add: NewWorker_def case_prod_beta)

lemma NewWorker_heap: "heap (NewWorker h i) = snd (NewWorkerMetrics h)"
  by (simp add: NewWorker_def case_prod_beta)

lemma Flush_fst: "fst (Flush st e) = wm (worker st)"
  by (simp add: Flush_def Let_def case_prod_beta)

lemma Flush_heap: "heap (snd (Flush st e)) = snd (NewWorkerMetrics (heap st))"
  by (simp add: Flush_def Let_def case_prod_beta)

lemma Flush_kept:
  "wm (worker (snd (Flush st e))) = fst (NewWorkerMetrics (heap st))"
  "processed (worker (snd (Flush st e))) = 0"
  "imported (worker (snd (Flush st e))) = 0"
  "logger (worker (snd (Flush st e))) = logger (worker st)"
  "id_w (worker (snd (Flush st e))) = id_w (worker st)"
  by (simp_all add: Flush_def Let_def case_prod_beta)

lemma Flush_stats:
  "stats (worker (snd (Flush st e))) =
     stats (worker st) @
     [TimeInMilliseconds ''flush.worker_duration_ns'' e [] f64_one,
      Count ''worker.metrics_processed_total'' (processed (worker st))
        [''worker:'' @ Sprintf_d (id_w (worker st))] f64_one,
      Count ''worker.metrics_imported_total'' (imported (worker st))
        [''worker:'' @ Sprintf_d (id_w (worker st))] f64_one,
      Count ''worker.metrics_flushed_total''
        (len_map (heap (snd (Flush st e))) (counters (wm (worker st))))
        [''metric_type:counter''] f64_one,
      Count ''worker.metrics_flushed_total''
        (len_map (heap (snd (Flush st e))) (gauges (wm (worker st))))
        [''metric_type:gauge''] f64_one,
      Count ''worker.metrics_flushed_total''
        (len_map (heap (snd (Flush st e))) (histograms (wm (worker st))))
        [''metric_type:histogram''] f64_one,
      Count ''worker.metrics_flushed_total''
        (len_map (heap (snd (Flush st e))) (sets (wm (worker st))))
        [''metric_type:set''] f64_one,
      Count ''worker.metrics_flushed_total''
        (len_map (heap (snd (Flush st e))) (timers (wm (worker st))))
        [''metric_type:timer''] f64_one]"
  by (simp add: Flush_def Let_def case_prod_beta)

lemma Flush_empty:
  "all_empty (heap (snd (Flush st e))) (wm (worker (snd (Flush st e))))"
  by (simp add: Flush_heap Flush_kept(1) NewWorkerMetrics_empty)

lemma Flush_wf: "wf (snd (Flush st e))"
  by (rule wf_fresh [of _ "heap st"]) (simp_all add: Flush_heap Flush_kept(1))

text \<open>\<open>Flush\<close> changes no allocated object, and the new live snapshot is all new.\<close>

lemma Flush_same: "same_on {..<next_addr (heap st)} (heap st) (heap (snd (Flush st e)))"
  by (simp add: Flush_heap NewWorkerMetrics_eq same_on_def)

lemma Flush_next: "next_addr (heap st) \<le> next_addr (heap (snd (Flush st e)))"
  by (simp add: Flush_heap NewWorkerMetrics_eq)

lemma Flush_reach:
  "reach (heap (snd (Flush st e))) (wm (worker (snd (Flush st e)))) \<subseteq>
     {a. next_addr (heap st) \<le> a}"
  by (simp add: Flush_heap Flush_kept(1) NewWorkerMetrics_eq reach_def fmran'_alt_def)

lemma Flush_frame: "frame st (snd (Flush st e))"
  using Flush_reach [of st e] same_on_mono [OF Flush_same [of st e]]
  by (auto simp: frame_def Flush_next)

subsection \<open>Sequences of calls\<close>

lemma do_call_wf: "wf st \<Longrightarrow> wf (state_after (do_call ops st c))"
  by (cases c) (simp_all add: ProcessMetric_wf ImportMetric_wf Flush_wf state_after_Inr)

lemma do_call_frame: "frame st (state_after (do_call ops st c))"
  by (cases c) (simp_all add: ProcessMetric_frame ImportMetric_frame Flush_frame state_after_Inr)

lemma do_calls_step:
  "state_after (do_calls ops st (c # cs)) =
     (if returned (do_call ops st c) then state_after (do_calls ops (state_after (do_call ops st c)) cs)
      else state_after (do_call ops st c))"
  by (cases "do_call ops st c") (simp_all add: returned_def state_after_def)

lemma do_calls_wf: "wf st \<Longrightarrow> wf (state_after (do_calls ops st cs))"
proof (induction cs arbitrary: st)
  case Nil
  then show ?case
    by (simp add: state_after_Inr)
next
  case (Cons c cs)
  from Cons.prems have "wf (state_after (do_call ops st c))"
    by (rule do_call_wf)
  with Cons.IH show ?case
    by (simp add: do_calls_step del: do_calls.simps)
qed

text \<open>Every state a worker can be in satisfies the invariant.\<close>

lemma reachable_wf: "wf (state_after (do_calls ops (NewWorker h i) cs))"
  by (rule do_calls_wf) (rule NewWorker_wf)

lemma ProcessMetrics_wf: "wf st \<Longrightarrow> ProcessMetrics ops st ms = Inr st' \<Longrightarrow> wf st'"
proof (induction ms arbitrary: st)
  case Nil
  then show ?case
    by simp
next
  case (Cons m ms)
  from Cons.prems(2) obtain st1 where 1: "ProcessMetric ops st m = Inr st1"
    and 2: "ProcessMetrics ops st1 ms = Inr st'"
    by (auto split: sum.splits)
  from ProcessMetric_wf [OF Cons.prems(1), of ops m] 1 have "wf st1"
    by (simp add: state_after_Inr)
  then show ?case
    using 2 by (rule Cons.IH)
qed

text \<open>
  A set of allocated addresses that the live snapshot does not refer to keeps its
  objects through any sequence of calls, and the live snapshot never refers to it.
\<close>

lemma do_calls_apart:
  assumes "wf st" "A \<subseteq> {..<next_addr (heap st)}"
    "A \<inter> reach (heap st) (wm (worker st)) = {}"
  shows "same_on A (heap st) (heap (state_after (do_calls ops st cs))) \<and>
         A \<inter> reach (heap (state_after (do_calls ops st cs)))
               (wm (worker (state_after (do_calls ops st cs)))) = {}"
  using assms
proof (induction cs arbitrary: st)
  case Nil
  then show ?case
    by (simp add: state_after_Inr same_on_refl)
next
  case (Cons c cs)
  let ?st1 = "state_after (do_call ops st c)"
  note F = frame_apart [OF do_call_frame [of st ops c] Cons.prems(2,3)]
  show ?case
  proof (cases "returned (do_call ops st c)")
    case True
    have wf1: "wf ?st1"
      using Cons.prems(1) by (rule do_call_wf)
    from Cons.IH [OF wf1 F(2) F(3)] F(1) True show ?thesis
      by (auto simp: do_calls_step simp del: do_calls.simps intro: same_on_trans)
  next
    case False
    with F show ?thesis
      by (simp add: do_calls_step del: do_calls.simps)
  qed
qed

section \<open>The claims\<close>

lemmas concrete_defs = fresh0_def NewWorker_def NewWorkerMetrics_eq heap0_def recorder_def
  requests_1_def cpu_half_def key_requests_def key_cpu_def

lemmas run_defs = ProcessMetric_def ImportMetric_def import_set_def case_counter_def
  case_gauge_def case_histogram_def case_set_def case_timer_def prim_defs Let_def
  state_after_def returned_def

lemma recorder_sel:
  "NewCounter recorder n t = []" "Counter_Sample recorder c v r = c @ [v]"
  "NewGauge recorder n t = []" "Gauge_Sample recorder g v r = g @ [v]"
  "NewHist recorder n t = []" "Histo_Sample recorder x v r = x @ [v]"
  "NewSet recorder n t = []" "Set_Sample recorder s w r = s @ [w]"
  by (simp_all add: recorder_def)

subsection \<open>The window is reset by Flush\<close>

lemma ProcessMetric_pointer:
  assumes "ProcessMetric ops st m = Inr st'" "known_type (Type (MetricKey m))"
  shows "pointer_at (heap st') (wm (worker st')) (MetricKey m) =
           (case pointer_at (heap st) (wm (worker st)) (MetricKey m) of
              None \<Rightarrow> Some (next_addr (heap st)) | Some p \<Rightarrow> Some p)"
proof -
  let ?st = "st\<lparr>worker := (worker st)\<lparr>processed := processed (worker st) + 1\<rparr>\<rparr>"
  from assms(2) consider "Type (MetricKey m) = ''counter''" | "Type (MetricKey m) = ''gauge''"
    | "Type (MetricKey m) = ''histogram''" | "Type (MetricKey m) = ''set''"
    | "Type (MetricKey m) = ''timer''"
    by (auto simp: known_type_iff)
  then show ?thesis
  proof cases
    case 1
    from assms(1) have r: "case_counter ops ?st m = Inr st'"
      by (simp add: ProcessMetric_cases(1) [OF 1])
    from r have x: "wm (worker st') = wm (worker st)"
      using case_counter_kept(1) [of ops ?st m] by (simp add: state_after_def)
    from case_counter_pointer [OF r] show ?thesis
      by (simp add: pointer_at_def 1 x split: option.splits)
  next
    case 2
    from assms(1) have r: "case_gauge ops ?st m = Inr st'"
      by (simp add: ProcessMetric_cases(2) [OF 2])
    from r have x: "wm (worker st') = wm (worker st)"
      using case_gauge_kept(1) [of ops ?st m] by (simp add: state_after_def)
    from case_gauge_pointer [OF r] show ?thesis
      by (simp add: pointer_at_def 2 x split: option.splits)
  next
    case 3
    from assms(1) have r: "case_histogram ops ?st m = Inr st'"
      by (simp add: ProcessMetric_cases(3) [OF 3])
    from r have x: "wm (worker st') = wm (worker st)"
      using case_histogram_kept(1) [of ops ?st m] by (simp add: state_after_def)
    from case_histogram_pointer [OF r] show ?thesis
      by (simp add: pointer_at_def 3 x split: option.splits)
  next
    case 4
    from assms(1) have r: "case_set ops ?st m = Inr st'"
      by (simp add: ProcessMetric_cases(4) [OF 4])
    from r have x: "wm (worker st') = wm (worker st)"
      using case_set_kept(1) [of ops ?st m] by (simp add: state_after_def)
    from case_set_pointer [OF r] show ?thesis
      by (simp add: pointer_at_def 4 x split: option.splits)
  next
    case 5
    from assms(1) have r: "case_timer ops ?st m = Inr st'"
      by (simp add: ProcessMetric_cases(5) [OF 5])
    from r have x: "wm (worker st') = wm (worker st)"
      using case_timer_kept(1) [of ops ?st m] by (simp add: state_after_def)
    from case_timer_pointer [OF r] show ?thesis
      by (simp add: pointer_at_def 5 x split: option.splits)
  qed
qed

lemma all_empty_nothing:
  assumes "all_empty h x"
  shows "accumulator_at h x k = None" and "pointer_at h x k = None"
  using assms
  by (simp_all add: all_empty_def accumulator_at_def pointer_at_def view_defs map_index_def)

text \<open>
  C1. \<open>Flush\<close> leaves the worker with both counters at zero and with a live snapshot whose
  five maps are empty. A sample processed next, of a known type and with a value of the
  representation the type expects, gets a new accumulator, whether or not its identity
  had one in the window before: the accumulator is the one the constructor makes of the
  sample's name and tags, with this one sample folded in; it is a new object, at the
  address the allocator hands out next; and the snapshot that \<open>Flush\<close> returned does not
  refer to that address (here the worker that was flushed has to satisfy the invariant
  of the store, as every worker does that the operations can produce).
\<close>

theorem Flush_resets_window:
  assumes "Flush st e = (ret, st1)"
  shows "processed (worker st1) = 0 \<and> imported (worker st1) = 0 \<and>
         all_empty (heap st1) (wm (worker st1)) \<and>
         (\<forall>m. known_type (Type (MetricKey m)) \<and> value_agrees m \<longrightarrow>
            (\<exists>st2 a. ProcessMetric ops st1 m = Inr st2 \<and>
                new_accumulator ops m = Some a \<and>
                accumulator_at (heap st2) (wm (worker st2)) (MetricKey m) =
                  Some (sample ops a (Value m) (SampleRate m)) \<and>
                pointer_at (heap st2) (wm (worker st2)) (MetricKey m) =
                  Some (next_addr (heap st1)) \<and>
                (wf st \<longrightarrow> next_addr (heap st1) \<notin> reach (heap st2) ret)))"
proof -
  from assms have ret: "ret = wm (worker st)" and st1: "st1 = snd (Flush st e)"
    using Flush_fst [of st e] by simp_all
  have wf1: "wf st1"
    unfolding st1 by (rule Flush_wf)
  have empty: "all_empty (heap st1) (wm (worker st1))"
    unfolding st1 by (rule Flush_empty)
  have next1: "next_addr (heap st) \<le> next_addr (heap st1)"
    unfolding st1 by (rule Flush_next)
  have live1: "reach (heap st1) (wm (worker st1)) \<subseteq> {a. next_addr (heap st) \<le> a}"
    unfolding st1 by (rule Flush_reach)
  have old: "next_addr (heap st1) \<notin> reach (heap st2) ret"
    if wf0: "wf st" and fr: "frame st1 st2" for st2
  proof -
    have below: "reach (heap st) ret \<subseteq> {..<next_addr (heap st)}"
      unfolding ret using wf0 by (rule wf_reach)
    have same1: "same_on (reach (heap st) ret) (heap st) (heap st1)"
      unfolding st1 using Flush_same below by (rule same_on_mono)
    have reach1: "reach (heap st1) ret = reach (heap st) ret"
      using same1 by (rule same_on_reach)
    have apart1: "reach (heap st1) ret \<inter> reach (heap st1) (wm (worker st1)) = {}"
      using live1 below reach1 by fastforce
    have below1: "reach (heap st1) ret \<subseteq> {..<next_addr (heap st1)}"
      using below next1 unfolding reach1 by fastforce
    from frame_apart(1) [OF fr below1 apart1]
    have "reach (heap st2) ret = reach (heap st1) ret"
      by (rule same_on_reach)
    with below1 show ?thesis
      by auto
  qed
  have sample: "\<exists>st2 a. ProcessMetric ops st1 m = Inr st2 \<and>
                new_accumulator ops m = Some a \<and>
                accumulator_at (heap st2) (wm (worker st2)) (MetricKey m) =
                  Some (sample ops a (Value m) (SampleRate m)) \<and>
                pointer_at (heap st2) (wm (worker st2)) (MetricKey m) =
                  Some (next_addr (heap st1)) \<and>
                (wf st \<longrightarrow> next_addr (heap st1) \<notin> reach (heap st2) ret)"
    if known: "known_type (Type (MetricKey m))" and agrees: "value_agrees m" for m
  proof -
    from agrees have "returned (ProcessMetric ops st1 m)"
      by (simp add: ProcessMetric_returned)
    then obtain st2 where r: "ProcessMetric ops st1 m = Inr st2"
      by (auto simp: returned_Inr)
    from known obtain a where a: "new_accumulator ops m = Some a"
      by (auto simp: new_accumulator_def Let_def known_type_iff)
    have acc: "accumulator_at (heap st2) (wm (worker st2)) (MetricKey m) =
                 Some (sample ops a (Value m) (SampleRate m))"
      by (simp add: ProcessMetric_accumulator [OF wf1 r] all_empty_nothing(1) [OF empty]
          sample_step_def a)
    have ptr: "pointer_at (heap st2) (wm (worker st2)) (MetricKey m) =
                 Some (next_addr (heap st1))"
      by (simp add: ProcessMetric_pointer [OF r known] all_empty_nothing(2) [OF empty])
    from ProcessMetric_frame [of st1 ops m] r have "frame st1 st2"
      by (simp add: state_after_Inr)
    then have "wf st \<longrightarrow> next_addr (heap st1) \<notin> reach (heap st2) ret"
      using old by blast
    with r a acc ptr show ?thesis
      by blast
  qed
  show ?thesis
    using empty sample by (simp add: st1 Flush_kept)
qed

text \<open>
  The worker that has one sample of \<open>requests\<close> is flushed and receives another sample of
  \<open>requests\<close>: the returned snapshot holds the first value, the live one the second alone.
\<close>

theorem Flush_resets_window_witness:
  "wf seen0 \<and>
   Counter_at (heap seen0) (wm (worker seen0)) key_requests = Some [f64_one] \<and>
   processed (worker seen0) = 1 \<and>
   processed (worker (snd (Flush seen0 0))) = 0 \<and>
   imported (worker (snd (Flush seen0 0))) = 0 \<and>
   all_empty (heap (snd (Flush seen0 0))) (wm (worker (snd (Flush seen0 0)))) \<and>
   known_type (Type (MetricKey requests_1)) \<and> value_agrees requests_1 \<and>
   returned (ProcessMetric recorder (snd (Flush seen0 0)) requests_1) \<and>
   accumulator_at
     (heap (state_after (ProcessMetric recorder (snd (Flush seen0 0)) requests_1)))
     (wm (worker (state_after (ProcessMetric recorder (snd (Flush seen0 0)) requests_1))))
     key_requests = Some (ACounter [f64_one]) \<and>
   pointer_at
     (heap (state_after (ProcessMetric recorder (snd (Flush seen0 0)) requests_1)))
     (wm (worker (state_after (ProcessMetric recorder (snd (Flush seen0 0)) requests_1))))
     key_requests = Some 11 \<and>
   11 \<notin> reach (heap (state_after (ProcessMetric recorder (snd (Flush seen0 0)) requests_1)))
          (fst (Flush seen0 0))"
proof -
  have w: "wf seen0"
    unfolding seen0_def fresh0_def by (intro ProcessMetric_wf NewWorker_wf)
  have k: "known_type (Type (MetricKey requests_1))" "value_agrees requests_1"
    by (simp_all add: known_type_def value_agrees_def requests_1_def key_requests_def)
  have n: "new_accumulator recorder requests_1 = Some (ACounter [])"
    by (simp add: new_accumulator_def requests_1_def key_requests_def recorder_def)
  have c: "Counter_at (heap seen0) (wm (worker seen0)) key_requests = Some [f64_one]"
    "processed (worker seen0) = 1"
    by (simp_all add: seen0_def concrete_defs run_defs view_defs)
  have f: "Flush seen0 0 = (fst (Flush seen0 0), snd (Flush seen0 0))"
    by simp
  from Flush_resets_window [OF f, of recorder] k n
  have "processed (worker (snd (Flush seen0 0))) = 0"
    "imported (worker (snd (Flush seen0 0))) = 0"
    "all_empty (heap (snd (Flush seen0 0))) (wm (worker (snd (Flush seen0 0))))"
    "\<exists>st2. ProcessMetric recorder (snd (Flush seen0 0)) requests_1 = Inr st2 \<and>
       accumulator_at (heap st2) (wm (worker st2)) (MetricKey requests_1) =
         Some (sample recorder (ACounter []) (Value requests_1) (SampleRate requests_1)) \<and>
       pointer_at (heap st2) (wm (worker st2)) (MetricKey requests_1) =
         Some (next_addr (heap (snd (Flush seen0 0)))) \<and>
       next_addr (heap (snd (Flush seen0 0))) \<notin> reach (heap st2) (fst (Flush seen0 0))"
    using w by auto
  moreover have "next_addr (heap (snd (Flush seen0 0))) = 11"
    by (simp add: Flush_heap NewWorkerMetrics_eq seen0_def concrete_defs run_defs)
  ultimately show ?thesis
    using w k c
    by (auto simp: returned_def state_after_def)
       (simp_all add: requests_1_def recorder_def)
qed

subsection \<open>The routing invariant\<close>

lemma fold_samples_Cons:
  "fold_samples ops k acc (m # ms) =
     fold_samples ops k (if MetricKey m = k then sample_step ops acc m else acc) ms"
  by (simp add: fold_samples_def)

text \<open>
  C2. A worker processes a sequence of samples, each with a value of the representation
  its type expects. Then every call returns, and for every identity the accumulator the
  worker holds afterwards is the left fold of \<open>sample(value, sampleRate)\<close> over the samples
  of that identity alone, in the order of delivery, from the accumulator it held before
  (for an identity it did not hold: from the accumulator constructed of the first
  sample's name and tags). The samples of other identities are filtered out of the fold:
  they do not matter.
\<close>

theorem routing_fold:
  assumes "wf st" "\<forall>m\<in>set ms. value_agrees m"
  shows "\<exists>st'. ProcessMetrics ops st ms = Inr st' \<and>
           (\<forall>k. accumulator_at (heap st') (wm (worker st')) k =
                  fold_samples ops k (accumulator_at (heap st) (wm (worker st)) k) ms)"
  using assms
proof (induction ms arbitrary: st)
  case Nil
  show ?case
    by (simp add: fold_samples_def)
next
  case (Cons m ms)
  from Cons.prems(2) have "returned (ProcessMetric ops st m)"
    by (simp add: ProcessMetric_returned)
  then obtain st1 where 1: "ProcessMetric ops st m = Inr st1"
    by (auto simp: returned_Inr)
  from ProcessMetric_wf [OF Cons.prems(1), of ops m] 1 have wf1: "wf st1"
    by (simp add: state_after_Inr)
  from Cons.prems(2) have "\<forall>m\<in>set ms. value_agrees m"
    by simp
  from Cons.IH [OF wf1 this] obtain st' where 2: "ProcessMetrics ops st1 ms = Inr st'"
    and 3: "\<And>k. accumulator_at (heap st') (wm (worker st')) k =
                 fold_samples ops k (accumulator_at (heap st1) (wm (worker st1)) k) ms"
    by blast
  have "accumulator_at (heap st') (wm (worker st')) k =
          fold_samples ops k (accumulator_at (heap st) (wm (worker st)) k) (m # ms)" for k
    unfolding 3 fold_samples_Cons ProcessMetric_accumulator [OF Cons.prems(1) 1] ..
  with 1 2 show ?case
    by simp
qed

text \<open>
  Two samples of \<open>requests\<close> with a sample of \<open>cpu\<close> between them: the counter has received
  the two values, the gauge the one.
\<close>

theorem routing_fold_witness:
  "wf fresh0 \<and> value_agrees requests_1 \<and> value_agrees cpu_half \<and>
   returned (ProcessMetrics recorder fresh0 [requests_1, cpu_half, requests_1]) \<and>
   accumulator_at
     (heap (state_after (ProcessMetrics recorder fresh0 [requests_1, cpu_half, requests_1])))
     (wm (worker (state_after (ProcessMetrics recorder fresh0 [requests_1, cpu_half, requests_1]))))
     key_requests = Some (ACounter [f64_one, f64_one])"
proof -
  have w: "wf fresh0"
    unfolding fresh0_def by (rule NewWorker_wf)
  have v: "\<forall>m\<in>set [requests_1, cpu_half, requests_1]. value_agrees m"
    by (simp add: value_agrees_def requests_1_def cpu_half_def key_requests_def key_cpu_def)
  have a: "accumulator_at (heap fresh0) (wm (worker fresh0)) key_requests = None"
    by (simp add: accumulator_at_def view_defs map_index_def concrete_defs)
  from routing_fold [OF w v, of recorder] obtain st'
    where "ProcessMetrics recorder fresh0 [requests_1, cpu_half, requests_1] = Inr st'"
      and "accumulator_at (heap st') (wm (worker st')) key_requests =
             fold_samples recorder key_requests
               (accumulator_at (heap fresh0) (wm (worker fresh0)) key_requests)
               [requests_1, cpu_half, requests_1]"
    by blast
  then show ?thesis
    using w v
    by (simp add: a returned_def state_after_def del: ProcessMetrics.simps)
       (simp add: fold_samples_def sample_step_def new_accumulator_def requests_1_def
          cpu_half_def key_requests_def key_cpu_def recorder_def)
qed

subsection \<open>What Flush returns\<close>

lemma Flush_len_map:
  assumes "wf st"
  shows "len_map (heap (snd (Flush st e))) (counters (wm (worker st))) =
           len_map (heap st) (counters (wm (worker st)))"
    and "len_map (heap (snd (Flush st e))) (gauges (wm (worker st))) =
           len_map (heap st) (gauges (wm (worker st)))"
    and "len_map (heap (snd (Flush st e))) (histograms (wm (worker st))) =
           len_map (heap st) (histograms (wm (worker st)))"
    and "len_map (heap (snd (Flush st e))) (sets (wm (worker st))) =
           len_map (heap st) (sets (wm (worker st)))"
    and "len_map (heap (snd (Flush st e))) (timers (wm (worker st))) =
           len_map (heap st) (timers (wm (worker st)))"
proof -
  have "same_on (reach (heap st) (wm (worker st))) (heap st) (heap (snd (Flush st e)))"
    using Flush_same wf_reach [OF assms] by (rule same_on_mono)
  note S = same_onD(1) [OF this]
  show "len_map (heap (snd (Flush st e))) (counters (wm (worker st))) =
           len_map (heap st) (counters (wm (worker st)))"
    by (simp add: len_map_def S [OF reach_maps(1)])
  show "len_map (heap (snd (Flush st e))) (gauges (wm (worker st))) =
           len_map (heap st) (gauges (wm (worker st)))"
    by (simp add: len_map_def S [OF reach_maps(2)])
  show "len_map (heap (snd (Flush st e))) (histograms (wm (worker st))) =
           len_map (heap st) (histograms (wm (worker st)))"
    by (simp add: len_map_def S [OF reach_maps(3)])
  show "len_map (heap (snd (Flush st e))) (sets (wm (worker st))) =
           len_map (heap st) (sets (wm (worker st)))"
    by (simp add: len_map_def S [OF reach_maps(4)])
  show "len_map (heap (snd (Flush st e))) (timers (wm (worker st))) =
           len_map (heap st) (timers (wm (worker st)))"
    by (simp add: len_map_def S [OF reach_maps(5)])
qed

text \<open>
  C3, as the code has it. \<open>Flush\<close> is called on a worker that satisfies the invariant of
  the store, as every worker does that the operations can produce. It returns the
  \<open>WorkerMetrics\<close> value that was live when it was called, and nothing else. What the
  caller gets is the snapshot of the window that ends: every object the returned value
  refers to, its five maps and the accumulators they point to, is in the store as it was
  before the call, so each map has the keys and each key the accumulator it had. The two
  counters of that window are not part of the result: \<open>Flush\<close> sends them to the
  statistics client, as the counts \<open>worker.metrics_processed_total\<close> and
  \<open>worker.metrics_imported_total\<close>, after the duration of the flush and before the sizes
  the five maps had when \<open>Flush\<close> was called; and it leaves both counters of the worker
  at zero.
\<close>

theorem Flush_returns_snapshot_reports_counters:
  assumes "wf st" "Flush st e = (ret, st1)"
  shows "ret = wm (worker st) \<and>
         same_on (reach (heap st) ret) (heap st) (heap st1) \<and>
         (\<forall>k. Counter_at (heap st1) ret k = Counter_at (heap st) ret k \<and>
              Gauge_at (heap st1) ret k = Gauge_at (heap st) ret k \<and>
              Histogram_at (heap st1) ret k = Histogram_at (heap st) ret k \<and>
              Set_at (heap st1) ret k = Set_at (heap st) ret k \<and>
              Timer_at (heap st1) ret k = Timer_at (heap st) ret k) \<and>
         processed (worker st1) = 0 \<and> imported (worker st1) = 0 \<and>
         stats (worker st1) =
           stats (worker st) @
           [TimeInMilliseconds ''flush.worker_duration_ns'' e [] f64_one,
            Count ''worker.metrics_processed_total'' (processed (worker st))
              [''worker:'' @ Sprintf_d (id_w (worker st))] f64_one,
            Count ''worker.metrics_imported_total'' (imported (worker st))
              [''worker:'' @ Sprintf_d (id_w (worker st))] f64_one,
            Count ''worker.metrics_flushed_total'' (len_map (heap st) (counters ret))
              [''metric_type:counter''] f64_one,
            Count ''worker.metrics_flushed_total'' (len_map (heap st) (gauges ret))
              [''metric_type:gauge''] f64_one,
            Count ''worker.metrics_flushed_total'' (len_map (heap st) (histograms ret))
              [''metric_type:histogram''] f64_one,
            Count ''worker.metrics_flushed_total'' (len_map (heap st) (sets ret))
              [''metric_type:set''] f64_one,
            Count ''worker.metrics_flushed_total'' (len_map (heap st) (timers ret))
              [''metric_type:timer''] f64_one]"
proof -
  from assms(2) have ret: "ret = wm (worker st)" and st1: "st1 = snd (Flush st e)"
    using Flush_fst [of st e] by simp_all
  have same: "same_on (reach (heap st) ret) (heap st) (heap st1)"
    unfolding ret st1 using Flush_same wf_reach [OF assms(1)] by (rule same_on_mono)
  have zero: "processed (worker st1) = 0" "imported (worker st1) = 0"
    unfolding st1 by (rule Flush_kept)+
  have out: "stats (worker st1) =
           stats (worker st) @
           [TimeInMilliseconds ''flush.worker_duration_ns'' e [] f64_one,
            Count ''worker.metrics_processed_total'' (processed (worker st))
              [''worker:'' @ Sprintf_d (id_w (worker st))] f64_one,
            Count ''worker.metrics_imported_total'' (imported (worker st))
              [''worker:'' @ Sprintf_d (id_w (worker st))] f64_one,
            Count ''worker.metrics_flushed_total'' (len_map (heap st) (counters ret))
              [''metric_type:counter''] f64_one,
            Count ''worker.metrics_flushed_total'' (len_map (heap st) (gauges ret))
              [''metric_type:gauge''] f64_one,
            Count ''worker.metrics_flushed_total'' (len_map (heap st) (histograms ret))
              [''metric_type:histogram''] f64_one,
            Count ''worker.metrics_flushed_total'' (len_map (heap st) (sets ret))
              [''metric_type:set''] f64_one,
            Count ''worker.metrics_flushed_total'' (len_map (heap st) (timers ret))
              [''metric_type:timer''] f64_one]"
    unfolding ret st1 Flush_stats Flush_len_map [OF assms(1)] ..
  from ret same zero out same_on_views [OF same] show ?thesis
    by simp
qed

lemma Sprintf_d_7: "Sprintf_d 7 = ''7''"
  by code_simp

text \<open>
  The worker that has processed one sample of \<open>requests\<close> is flushed: the returned
  snapshot holds the counter with its one value, the worker's counters are zero, and the
  statistics client has received the count of one processed sample.
\<close>

theorem Flush_returns_snapshot_reports_counters_witness:
  "wf seen0 \<and>
   processed (worker seen0) = 1 \<and>
   Counter_at (heap seen0) (wm (worker seen0)) key_requests = Some [f64_one] \<and>
   fst (Flush seen0 0) = \<lparr>counters = 0, gauges = 1, histograms = 2, sets = 3, timers = 4\<rparr> \<and>
   Counter_at (heap (snd (Flush seen0 0))) (fst (Flush seen0 0)) key_requests =
     Some [f64_one] \<and>
   processed (worker (snd (Flush seen0 0))) = 0 \<and>
   imported (worker (snd (Flush seen0 0))) = 0 \<and>
   stats (worker (snd (Flush seen0 0))) =
     [TimeInMilliseconds ''flush.worker_duration_ns'' 0 [] f64_one,
      Count ''worker.metrics_processed_total'' 1 [''worker:7''] f64_one,
      Count ''worker.metrics_imported_total'' 0 [''worker:7''] f64_one,
      Count ''worker.metrics_flushed_total'' 1 [''metric_type:counter''] f64_one,
      Count ''worker.metrics_flushed_total'' 0 [''metric_type:gauge''] f64_one,
      Count ''worker.metrics_flushed_total'' 0 [''metric_type:histogram''] f64_one,
      Count ''worker.metrics_flushed_total'' 0 [''metric_type:set''] f64_one,
      Count ''worker.metrics_flushed_total'' 0 [''metric_type:timer''] f64_one]"
proof -
  have w: "wf seen0"
    unfolding seen0_def fresh0_def by (intro ProcessMetric_wf NewWorker_wf)
  have f: "Flush seen0 0 = (fst (Flush seen0 0), snd (Flush seen0 0))"
    by simp
  have c: "processed (worker seen0) = 1" "imported (worker seen0) = 0"
    "id_w (worker seen0) = 7" "stats (worker seen0) = []"
    "wm (worker seen0) = \<lparr>counters = 0, gauges = 1, histograms = 2, sets = 3, timers = 4\<rparr>"
    "Counter_at (heap seen0) (wm (worker seen0)) key_requests = Some [f64_one]"
    by (simp_all add: seen0_def concrete_defs run_defs view_defs)
  have l: "len_map (heap seen0) (counters (wm (worker seen0))) = 1"
    "len_map (heap seen0) (gauges (wm (worker seen0))) = 0"
    "len_map (heap seen0) (histograms (wm (worker seen0))) = 0"
    "len_map (heap seen0) (sets (wm (worker seen0))) = 0"
    "len_map (heap seen0) (timers (wm (worker seen0))) = 0"
    by (simp_all add: seen0_def concrete_defs run_defs len_map_def fcard_finsert_if
        fcard_fempty)
  have r: "fst (Flush seen0 0) = wm (worker seen0)"
    by (rule Flush_fst)
  note T = Flush_returns_snapshot_reports_counters [OF w f, unfolded r]
  from T have v: "Counter_at (heap (snd (Flush seen0 0))) (wm (worker seen0)) key_requests =
      Counter_at (heap seen0) (wm (worker seen0)) key_requests"
    by blast
  from T have z: "processed (worker (snd (Flush seen0 0))) = 0"
    "imported (worker (snd (Flush seen0 0))) = 0"
    by simp_all
  from T have s: "stats (worker (snd (Flush seen0 0))) =
     [TimeInMilliseconds ''flush.worker_duration_ns'' 0 [] f64_one,
      Count ''worker.metrics_processed_total'' 1 [''worker:7''] f64_one,
      Count ''worker.metrics_imported_total'' 0 [''worker:7''] f64_one,
      Count ''worker.metrics_flushed_total'' 1 [''metric_type:counter''] f64_one,
      Count ''worker.metrics_flushed_total'' 0 [''metric_type:gauge''] f64_one,
      Count ''worker.metrics_flushed_total'' 0 [''metric_type:histogram''] f64_one,
      Count ''worker.metrics_flushed_total'' 0 [''metric_type:set''] f64_one,
      Count ''worker.metrics_flushed_total'' 0 [''metric_type:timer''] f64_one]"
    by (simp add: c(1-4) l Sprintf_d_7)
  have "Counter_at (heap (snd (Flush seen0 0))) (fst (Flush seen0 0)) key_requests =
     Some [f64_one]"
    unfolding r v by (rule c(6))
  moreover have "fst (Flush seen0 0) =
      \<lparr>counters = 0, gauges = 1, histograms = 2, sets = 3, timers = 4\<rparr>"
    unfolding r by (rule c(5))
  ultimately show ?thesis
    using w c(1,6) z s by simp
qed

text \<open>
  C3, as the spec has it, fails: a worker that has processed nothing and a worker that has
  processed the bogus sample return the same value from \<open>Flush\<close>, with the same (empty)
  maps behind it, while their \<open>processed\<close> counters differ. The counters cannot be read
  off what \<open>Flush\<close> returns.
\<close>

theorem Flush_result_without_counters:
  "fst (Flush fresh0 0) = fst (Flush bogus0 0) \<and>
   all_empty (heap (snd (Flush fresh0 0))) (fst (Flush fresh0 0)) \<and>
   all_empty (heap (snd (Flush bogus0 0))) (fst (Flush bogus0 0)) \<and>
   processed (worker fresh0) = 0 \<and> processed (worker bogus0) = 1"
  by (simp add: bogus0_def bogus_sample_def key_bogus_def concrete_defs run_defs Flush_def
      all_empty_def log_entry_to_def)

subsection \<open>Processed and imported\<close>

text \<open>
  C4. Every call to \<open>ProcessMetric\<close> adds exactly one to the worker's \<open>processed\<close> counter
  and leaves \<open>imported\<close> as it is; every call to \<open>ImportMetric\<close> adds exactly one to
  \<open>imported\<close> and leaves \<open>processed\<close> as it is. This holds for the worker as the call
  leaves it, also when the call panics. The counters are \<open>int64\<close>: the addition is the
  one of Go, modulo \<open>2 ^ 64\<close>.
\<close>

theorem processed_imported_separation:
  "processed (worker (state_after (ProcessMetric ops st m))) = processed (worker st) + 1 \<and>
   imported (worker (state_after (ProcessMetric ops st m))) = imported (worker st) \<and>
   imported (worker (state_after (ImportMetric ops st j))) = imported (worker st) + 1 \<and>
   processed (worker (state_after (ImportMetric ops st j))) = processed (worker st)"
proof -
  have "processed (worker (state_after (ProcessMetric ops st m))) = processed (worker st) + 1"
    by (subst ProcessMetric_worker) simp
  moreover have "imported (worker (state_after (ProcessMetric ops st m))) = imported (worker st)"
    by (subst ProcessMetric_worker) simp
  moreover have "imported (worker (state_after (ImportMetric ops st j))) = imported (worker st) + 1"
    by (subst ImportMetric_worker) simp
  moreover have "processed (worker (state_after (ImportMetric ops st j))) = processed (worker st)"
    by (subst ImportMetric_worker) simp
  ultimately show ?thesis
    by simp
qed

theorem processed_imported_separation_witness:
  "processed (worker (state_after (ProcessMetric recorder fresh0 requests_1))) = 1 \<and>
   imported (worker (state_after (ProcessMetric recorder fresh0 requests_1))) = 0 \<and>
   imported (worker (state_after (ImportMetric recorder fresh0 users_good))) = 1 \<and>
   processed (worker (state_after (ImportMetric recorder fresh0 users_good))) = 0"
  using processed_imported_separation [of recorder fresh0 requests_1 users_good]
  by (simp add: fresh0_def NewWorker_worker)

text \<open>Below the largest \<open>int64\<close> the addition is the one of the integers.\<close>

lemma int64_increment:
  fixes w :: int64
  assumes "sint w < 2 ^ 63 - 1"
  shows "sint (w + 1) = sint w + 1"
proof -
  have "- (2 ^ 63) \<le> sint w"
    using sint_ge [of w] by simp
  with assms have "sint w + 1 \<in> {- (2 ^ 63) ..< 2 ^ 63}"
    by simp
  then have "signed_take_bit 63 (sint w + 1) = sint w + 1"
    by (simp add: signed_take_bit_int_eq_self_iff)
  then show ?thesis
    by (simp add: sint_word_ariths)
qed

subsection \<open>A sample of an unknown type\<close>

text \<open>
  C5. For a sample whose type is none of counter, gauge, histogram, set and timer,
  \<open>ProcessMetric\<close> returns; the worker it leaves differs from the one it found in two
  places only: \<open>processed\<close> is one more, and the logger has received one error entry. The
  store is the same, so each of the five maps holds what it held and no entry was
  created.
\<close>

theorem unknown_type_dropped:
  assumes "\<not> known_type (Type (MetricKey m))"
  shows "ProcessMetric ops st m =
           Inr (st\<lparr>worker := (worker st)
                  \<lparr>processed := processed (worker st) + 1,
                   logger := logger (worker st) @
                     [Entry ErrorLevel (FieldString ''type'' (Type (MetricKey m)))
                        ''Unknown metric type for processing'']\<rparr>\<rparr>)"
  by (simp add: ProcessMetric_cases(6) [OF assms] log_entry_to_def)

theorem unknown_type_dropped_witness:
  "\<not> known_type (Type (MetricKey bogus_sample)) \<and>
   ProcessMetric recorder fresh0 bogus_sample =
     Inr (fresh0\<lparr>worker := (worker fresh0)
            \<lparr>processed := 1,
             logger := [Entry ErrorLevel (FieldString ''type'' ''bogus'')
                          ''Unknown metric type for processing'']\<rparr>\<rparr>)"
proof -
  have k: "\<not> known_type (Type (MetricKey bogus_sample))"
    by (simp add: known_type_def bogus_sample_def key_bogus_def)
  show ?thesis
    using k unknown_type_dropped [OF k, of recorder fresh0]
    by (simp add: fresh0_def NewWorker_worker bogus_sample_def key_bogus_def)
qed

subsection \<open>An import that Combine rejects\<close>

text \<open>
  C6, as the code has it. \<open>ImportMetric\<close> receives a metric of type set, and \<open>Combine\<close>
  rejects its encoded state and leaves its receiver as it was. Then the call returns,
  \<open>imported\<close> is one more, the error is the last entry the logger received, and nothing
  but the set of this identity may differ in the five maps. A set the identity had
  before keeps its content. For an identity without a set the code has created one
  before it called \<open>Combine\<close>, and does not remove it: the identity now has the empty set
  the constructor makes of its name and tags, and the snapshot that the next \<open>Flush\<close>
  returns holds this entry.
\<close>

theorem rejected_import:
  assumes "wf st" "Type (MetricKey_J j) = ''set''"
    and "s = (case Set_at (heap st) (wm (worker st)) (MetricKey_J j) of
                None \<Rightarrow> NewSet ops (Name (MetricKey_J j)) (Tags_J j) | Some a \<Rightarrow> a)"
    and "Set_Combine ops s (Value_J j) = (s, Some err)"
  shows "\<exists>st'. ImportMetric ops st j = Inr st' \<and>
           wm (worker st') = wm (worker st) \<and>
           imported (worker st') = imported (worker st) + 1 \<and>
           last (logger (worker st')) = Entry ErrorLevel (FieldError err) ''Could not merge sets'' \<and>
           Set_at (heap st') (wm (worker st')) (MetricKey_J j) = Some s \<and>
           (\<forall>k. (k \<noteq> MetricKey_J j \<longrightarrow>
                   Set_at (heap st') (wm (worker st')) k = Set_at (heap st) (wm (worker st)) k) \<and>
                Counter_at (heap st') (wm (worker st')) k = Counter_at (heap st) (wm (worker st)) k \<and>
                Gauge_at (heap st') (wm (worker st')) k = Gauge_at (heap st) (wm (worker st)) k \<and>
                Histogram_at (heap st') (wm (worker st')) k =
                  Histogram_at (heap st) (wm (worker st)) k \<and>
                Timer_at (heap st') (wm (worker st')) k = Timer_at (heap st) (wm (worker st)) k) \<and>
           Set_at (heap (snd (Flush st' e))) (fst (Flush st' e)) (MetricKey_J j) = Some s"
proof -
  let ?st = "st\<lparr>worker := (worker st)\<lparr>imported := imported (worker st) + 1\<rparr>\<rparr>"
  have wf0: "wf ?st"
    using assms(1) by (simp add: wf_cong [of ?st st])
  from ImportMetric_returned [of ops st j] obtain st' where r: "ImportMetric ops st j = Inr st'"
    by (auto simp: returned_Inr)
  then have r': "import_set ops ?st j = Inr st'"
    by (simp add: ImportMetric_cases(1) [OF assms(2)])
  have st': "st' = state_after (ImportMetric ops st j)"
    by (simp add: r state_after_Inr)
  have st'': "st' = state_after (import_set ops ?st j)"
    by (simp add: r' state_after_Inr)
  have w: "worker st' = (worker st)\<lparr>imported := imported (worker st) + 1,
                                     logger := logger (worker st')\<rparr>"
    unfolding st' by (rule ImportMetric_worker)
  have x: "wm (worker st') = wm (worker st)"
    by (subst w) simp
  have i: "imported (worker st') = imported (worker st) + 1"
    by (subst w) simp
  have l: "last (logger (worker st')) = Entry ErrorLevel (FieldError err) ''Could not merge sets''"
    unfolding st'' import_set_logger using assms(3,4) by simp
  note V = import_set_views [OF wf0 r', simplified]
  have s: "Set_at (heap st') (wm (worker st)) (MetricKey_J j) = Some s"
    using assms(3,4) by (simp add: V(1))
  have wf': "wf st'"
    unfolding st' using assms(1) by (rule ImportMetric_wf)
  have "same_on (reach (heap st') (wm (worker st'))) (heap st') (heap (snd (Flush st' e)))"
    using Flush_same wf_reach [OF wf'] by (rule same_on_mono)
  from same_on_views(4) [OF this]
  have f: "Set_at (heap (snd (Flush st' e))) (fst (Flush st' e)) (MetricKey_J j) = Some s"
    by (simp add: Flush_fst x s)
  from r x i l s f show ?thesis
    by (simp add: V)
qed

text \<open>
  The fresh worker has no set for \<open>users\<close>; it imports a state that \<open>Combine\<close> rejects.
  Afterwards it has the empty set for \<open>users\<close>, and \<open>Flush\<close> returns it.
\<close>

theorem rejected_import_witness:
  "wf fresh0 \<and> Type (MetricKey_J users_bad) = ''set'' \<and>
   Set_at (heap fresh0) (wm (worker fresh0)) key_users = None \<and>
   Set_Combine recorder [] (Value_J users_bad) = ([], Some ''unexpected EOF'') \<and>
   returned (ImportMetric recorder fresh0 users_bad) \<and>
   imported (worker imported_bad0) = 1 \<and>
   last (logger (worker imported_bad0)) =
     Entry ErrorLevel (FieldError ''unexpected EOF'') ''Could not merge sets'' \<and>
   Set_at (heap imported_bad0) (wm (worker imported_bad0)) key_users = Some [] \<and>
   Set_at (heap (snd (Flush imported_bad0 0))) (fst (Flush imported_bad0 0)) key_users = Some []"
proof -
  have w: "wf fresh0"
    unfolding fresh0_def by (rule NewWorker_wf)
  have t: "Type (MetricKey_J users_bad) = ''set''" "MetricKey_J users_bad = key_users"
    by (simp_all add: users_bad_def key_users_def)
  have n: "Set_at (heap fresh0) (wm (worker fresh0)) key_users = None"
    by (simp add: view_defs map_index_def concrete_defs)
  have s: "[] = (case Set_at (heap fresh0) (wm (worker fresh0)) (MetricKey_J users_bad) of
                   None \<Rightarrow> NewSet recorder (Name (MetricKey_J users_bad)) (Tags_J users_bad)
                 | Some a \<Rightarrow> a)"
    by (simp add: t n) (simp add: recorder_def)
  have c: "Set_Combine recorder [] (Value_J users_bad) = ([], Some ''unexpected EOF'')"
    by (simp add: recorder_def users_bad_def)
  have i: "imported (worker fresh0) = 0"
    by (simp add: fresh0_def NewWorker_worker)
  from rejected_import [OF w t(1) s c, of 0] w t n c i show ?thesis
    by (auto simp: imported_bad0_def returned_def state_after_def)
qed

text \<open>
  C6, as the spec has it, fails in its last part: the fresh worker has no entry for
  \<open>users\<close>, \<open>Combine\<close> rejects the imported state, and the snapshot that \<open>Flush\<close> returns
  next does have an entry for \<open>users\<close>.
\<close>

theorem rejected_import_leaves_entry:
  "map_index (heap fresh0) (sets (wm (worker fresh0))) key_users = None \<and>
   snd (Set_Combine recorder (NewSet recorder ''users'' []) (Value_J users_bad)) =
     Some ''unexpected EOF'' \<and>
   ImportMetric recorder fresh0 users_bad = Inr imported_bad0 \<and>
   map_index (heap (snd (Flush imported_bad0 0))) (sets (fst (Flush imported_bad0 0))) key_users =
     Some 5 \<and>
   Set_at (heap (snd (Flush imported_bad0 0))) (fst (Flush imported_bad0 0)) key_users = Some []"
  by (simp add: imported_bad0_def users_bad_def key_users_def concrete_defs run_defs view_defs
      Flush_def case_prod_beta)

subsection \<open>The returned snapshot belongs to the caller\<close>

text \<open>
  C7. \<open>Flush\<close> returns a snapshot to its caller. Whatever calls of \<open>ProcessMetric\<close>,
  \<open>ImportMetric\<close> and \<open>Flush\<close> the worker receives afterwards, returning or panicking:
  every object the returned snapshot refers to, its five maps and the accumulators they
  point to, is in the store as \<open>Flush\<close> left it, so the caller reads the same accumulator
  under every key of every map; and the worker's live snapshot never refers to any of
  these objects.
\<close>

theorem returned_snapshot_untouched:
  assumes "wf st" "Flush st e = (ret, st1)" "st2 = state_after (do_calls ops st1 cs)"
  shows "same_on (reach (heap st1) ret) (heap st1) (heap st2) \<and>
         reach (heap st1) ret \<inter> reach (heap st2) (wm (worker st2)) = {} \<and>
         (\<forall>k. Counter_at (heap st2) ret k = Counter_at (heap st1) ret k \<and>
              Gauge_at (heap st2) ret k = Gauge_at (heap st1) ret k \<and>
              Histogram_at (heap st2) ret k = Histogram_at (heap st1) ret k \<and>
              Set_at (heap st2) ret k = Set_at (heap st1) ret k \<and>
              Timer_at (heap st2) ret k = Timer_at (heap st1) ret k)"
proof -
  from assms(2) have ret: "ret = wm (worker st)" and st1: "st1 = snd (Flush st e)"
    using Flush_fst [of st e] by simp_all
  have wf1: "wf st1"
    unfolding st1 by (rule Flush_wf)
  have below: "reach (heap st) ret \<subseteq> {..<next_addr (heap st)}"
    unfolding ret using assms(1) by (rule wf_reach)
  have next1: "next_addr (heap st) \<le> next_addr (heap st1)"
    unfolding st1 by (rule Flush_next)
  have same1: "same_on (reach (heap st) ret) (heap st) (heap st1)"
    unfolding st1 using Flush_same below by (rule same_on_mono)
  have reach1: "reach (heap st1) ret = reach (heap st) ret"
    using same1 by (rule same_on_reach)
  have live1: "reach (heap st1) (wm (worker st1)) \<subseteq> {a. next_addr (heap st) \<le> a}"
    unfolding st1 by (rule Flush_reach)
  have apart1: "reach (heap st1) ret \<inter> reach (heap st1) (wm (worker st1)) = {}"
    using live1 below reach1 by fastforce
  have below1: "reach (heap st1) ret \<subseteq> {..<next_addr (heap st1)}"
    using below next1 unfolding reach1 by fastforce
  from do_calls_apart [OF wf1 below1 apart1, of ops cs]
  have same: "same_on (reach (heap st1) ret) (heap st1) (heap st2)"
    and apart: "reach (heap st1) ret \<inter> reach (heap st2) (wm (worker st2)) = {}"
    unfolding assms(3) by simp_all
  from same apart same_on_views [OF same] show ?thesis
    by simp
qed

text \<open>
  The worker that has one sample of \<open>requests\<close> is flushed, then it processes another
  sample of \<open>requests\<close>, imports a set, is flushed again and processes a sample of \<open>cpu\<close>:
  the snapshot of the first flush still holds the one value.
\<close>

theorem returned_snapshot_untouched_witness:
  "wf seen0 \<and>
   Counter_at (heap (snd (Flush seen0 0))) (fst (Flush seen0 0)) key_requests = Some [f64_one] \<and>
   returned (do_calls recorder (snd (Flush seen0 0))
     [Process requests_1, Import users_good, FlushCall 0, Process cpu_half]) \<and>
   Counter_at
     (heap (state_after (do_calls recorder (snd (Flush seen0 0))
        [Process requests_1, Import users_good, FlushCall 0, Process cpu_half])))
     (fst (Flush seen0 0)) key_requests = Some [f64_one]"
proof -
  have w: "wf seen0"
    unfolding seen0_def fresh0_def by (intro ProcessMetric_wf NewWorker_wf)
  have f: "Flush seen0 0 = (fst (Flush seen0 0), snd (Flush seen0 0))"
    by simp
  have c: "Counter_at (heap (snd (Flush seen0 0))) (fst (Flush seen0 0)) key_requests =
             Some [f64_one]"
    by (simp add: seen0_def concrete_defs run_defs view_defs Flush_def)
  have r: "returned (do_calls recorder (snd (Flush seen0 0))
     [Process requests_1, Import users_good, FlushCall 0, Process cpu_half])"
    by (simp add: seen0_def users_good_def key_users_def concrete_defs run_defs Flush_def
        case_prod_beta)
  from returned_snapshot_untouched [OF w f refl, of recorder
      "[Process requests_1, Import users_good, FlushCall 0, Process cpu_half]"] w c r
  show ?thesis
    by simp
qed

subsection \<open>Three requests and one cpu reading\<close>

text \<open>
  C8. A new worker, whatever the accumulators and whatever store it is created in,
  processes the counter \<open>requests\<close> with value 1 at rate 1 three times and the gauge \<open>cpu\<close>
  with value 0.5 at rate 1 once, and is flushed. All four calls return. At the flush
  \<open>processed\<close> is 4 and \<open>imported\<close> is 0, and these are the counts \<open>Flush\<close> reports. In the
  returned snapshot the map of counters has the one key \<open>requests\<close>, with the new counter
  that has sampled the value 1 at rate 1 three times; the map of gauges has the one key
  \<open>cpu\<close>, with the new gauge that has sampled 0.5 at rate 1; the other three maps are
  empty.
\<close>

theorem three_requests_one_cpu:
  "let r = ProcessMetrics ops (NewWorker h0 i) [requests_1, requests_1, requests_1, cpu_half];
       ret = fst (Flush (state_after r) e);
       h = heap (snd (Flush (state_after r) e))
   in returned r \<and>
         processed (worker (state_after r)) = 4 \<and> imported (worker (state_after r)) = 0 \<and>
         fmdom (map_objs h (counters ret)) = {|key_requests|} \<and>
         Counter_at h ret key_requests =
           Some (Counter_Sample ops (Counter_Sample ops (Counter_Sample ops
                   (NewCounter ops ''requests'' []) f64_one f32_one) f64_one f32_one)
                   f64_one f32_one) \<and>
         fmdom (map_objs h (gauges ret)) = {|key_cpu|} \<and>
         Gauge_at h ret key_cpu = Some (Gauge_Sample ops (NewGauge ops ''cpu'' []) f64_half f32_one) \<and>
         map_objs h (histograms ret) = fmempty \<and> map_objs h (sets ret) = fmempty \<and>
         map_objs h (timers ret) = fmempty \<and>
         set (stats (worker (snd (Flush (state_after r) e)))) \<supseteq>
           {Count ''worker.metrics_processed_total'' 4 [''worker:'' @ Sprintf_d i] f64_one,
            Count ''worker.metrics_imported_total'' 0 [''worker:'' @ Sprintf_d i] f64_one}"
  by (simp add: NewWorker_def NewWorkerMetrics_eq requests_1_def cpu_half_def key_requests_def
      key_cpu_def run_defs view_defs Flush_def case_prod_beta)

theorem three_requests_one_cpu_witness:
  "Counter_at
     (heap (snd (Flush (state_after (ProcessMetrics recorder fresh0
        [requests_1, requests_1, requests_1, cpu_half])) 0)))
     (fst (Flush (state_after (ProcessMetrics recorder fresh0
        [requests_1, requests_1, requests_1, cpu_half])) 0))
     key_requests = Some [f64_one, f64_one, f64_one] \<and>
   Gauge_at
     (heap (snd (Flush (state_after (ProcessMetrics recorder fresh0
        [requests_1, requests_1, requests_1, cpu_half])) 0)))
     (fst (Flush (state_after (ProcessMetrics recorder fresh0
        [requests_1, requests_1, requests_1, cpu_half])) 0))
     key_cpu = Some [f64_half]"
  using three_requests_one_cpu [of recorder heap0 7 0]
  by (simp add: Let_def fresh0_def recorder_sel del: ProcessMetrics.simps)

subsection \<open>Shutdown at the select\<close>

text \<open>
  C9, as the code has it. One iteration of the loop of \<open>Work\<close> does one of two things, and
  can do either whenever its condition holds. If a sample is offered on \<open>WorkChan\<close>, the
  iteration can receive the oldest one and run \<open>ProcessMetric\<close> on it to its end: the loop
  goes on with the worker that \<open>ProcessMetric\<close> returns, or it dies with the panic. If
  \<open>QuitChan\<close> is closed, the iteration can log "Stopping" and return, and then it receives
  no sample and changes nothing else. So shutdown is observed at the \<open>select\<close> only, never
  in the middle of a sample; with no shutdown pending an offered sample is processed;
  and with a sample offered and shutdown pending the \<open>select\<close> is free to take either case.
\<close>

theorem select_takes_either_case:
  "Work_step ops (Running st) l \<longleftrightarrow>
     (\<exists>m ms. WorkChan (worker st) = m # ms \<and>
        l = (case ProcessMetric ops (receive_work st) m of
               Inr st' \<Rightarrow> Running st'
             | Inl (p, st') \<Rightarrow> Panicked p st')) \<or>
     (QuitChan (worker st) \<and>
        l = Returned (log_entry_to st
              (Entry ErrorLevel (FieldInt ''worker'' (id_w (worker st))) ''Stopping'')))"
proof
  assume "Work_step ops (Running st) l"
  then show "(\<exists>m ms. WorkChan (worker st) = m # ms \<and>
        l = (case ProcessMetric ops (receive_work st) m of
               Inr st' \<Rightarrow> Running st'
             | Inl (p, st') \<Rightarrow> Panicked p st')) \<or>
     (QuitChan (worker st) \<and>
        l = Returned (log_entry_to st
              (Entry ErrorLevel (FieldInt ''worker'' (id_w (worker st))) ''Stopping'')))"
    by cases simp_all
next
  assume "(\<exists>m ms. WorkChan (worker st) = m # ms \<and>
        l = (case ProcessMetric ops (receive_work st) m of
               Inr st' \<Rightarrow> Running st'
             | Inl (p, st') \<Rightarrow> Panicked p st')) \<or>
     (QuitChan (worker st) \<and>
        l = Returned (log_entry_to st
              (Entry ErrorLevel (FieldInt ''worker'' (id_w (worker st))) ''Stopping'')))"
  then show "Work_step ops (Running st) l"
  proof
    assume "\<exists>m ms. WorkChan (worker st) = m # ms \<and>
        l = (case ProcessMetric ops (receive_work st) m of
               Inr st' \<Rightarrow> Running st'
             | Inl (p, st') \<Rightarrow> Panicked p st')"
    then obtain m ms where c: "WorkChan (worker st) = m # ms"
      and l: "l = (case ProcessMetric ops (receive_work st) m of
               Inr st' \<Rightarrow> Running st'
             | Inl (p, st') \<Rightarrow> Panicked p st')"
      by blast
    show ?thesis
    proof (cases "ProcessMetric ops (receive_work st) m")
      case (Inl e)
      obtain p st' where e: "e = (p, st')"
        by (cases e)
      from c Inl show ?thesis
        unfolding l e by (simp add: Work_step.work_panic)
    next
      case (Inr st')
      from c Inr show ?thesis
        unfolding l by (simp add: Work_step.work)
    qed
  next
    assume "QuitChan (worker st) \<and>
        l = Returned (log_entry_to st
              (Entry ErrorLevel (FieldInt ''worker'' (id_w (worker st))) ''Stopping''))"
    then show ?thesis
      by (simp add: Work_step.quit)
  qed
qed

text \<open>
  The worker with a sample of \<open>requests\<close> offered and \<open>QuitChan\<close> closed by \<open>Stop\<close> can
  process the sample and can return.
\<close>

theorem select_takes_either_case_witness:
  "WorkChan (worker both0) = [requests_1] \<and> QuitChan (worker both0) \<and>
   Work_step recorder (Running both0)
     (Running (state_after (ProcessMetric recorder (receive_work both0) requests_1))) \<and>
   processed (worker (state_after (ProcessMetric recorder (receive_work both0) requests_1))) = 1 \<and>
   Work_step recorder (Running both0) (Returned quit0)"
proof -
  have b: "WorkChan (worker both0) = [requests_1]" "QuitChan (worker both0)"
    "id_w (worker both0) = 7" "processed (worker both0) = 0"
    by (simp_all add: both0_def Stop_def state_after_def fresh0_def NewWorker_worker)
  have v: "value_agrees requests_1"
    by (simp add: value_agrees_def requests_1_def key_requests_def)
  then have "returned (ProcessMetric recorder (receive_work both0) requests_1)"
    by (simp add: ProcessMetric_returned)
  then obtain st' where r: "ProcessMetric recorder (receive_work both0) requests_1 = Inr st'"
    by (auto simp: returned_Inr)
  then have st': "state_after (ProcessMetric recorder (receive_work both0) requests_1) = st'"
    by (simp add: state_after_Inr)
  have "processed (worker (state_after (ProcessMetric recorder (receive_work both0) requests_1))) = 1"
    by (subst ProcessMetric_worker) (simp add: receive_work_def b)
  then have p: "processed (worker st') = 1"
    by (simp only: st')
  have 1: "Work_step recorder (Running both0) (Running st')"
    unfolding select_takes_either_case [of recorder both0] using b(1) r by simp
  have 2: "Work_step recorder (Running both0) (Returned quit0)"
    unfolding select_takes_either_case [of recorder both0] using b(2,3) by (simp add: quit0_def)
  from b p 1 2 show ?thesis
    by (simp add: st')
qed

text \<open>
  C9, as the spec has it, fails: with a sample of \<open>requests\<close> offered on \<open>WorkChan\<close> and
  \<open>QuitChan\<close> closed, one iteration can return. The worker has then processed nothing,
  its maps are empty, and the sample is still where the sender offered it: no later
  iteration will receive it.
\<close>

theorem shutdown_can_pass_over_a_sample:
  "WorkChan (worker both0) = [requests_1] \<and> QuitChan (worker both0) \<and>
   Work_step recorder (Running both0) (Returned quit0) \<and>
   WorkChan (worker quit0) = [requests_1] \<and> processed (worker quit0) = 0 \<and>
   all_empty (heap quit0) (wm (worker quit0))"
proof -
  have b: "WorkChan (worker both0) = [requests_1]" "QuitChan (worker both0)"
    "id_w (worker both0) = 7" "processed (worker both0) = 0"
    by (simp_all add: both0_def Stop_def state_after_def fresh0_def NewWorker_worker)
  have "Work_step recorder (Running both0)
     (Returned (log_entry_to both0
        (Entry ErrorLevel (FieldInt ''worker'' (id_w (worker both0))) ''Stopping'')))"
    using b(2) by (rule Work_step.quit)
  then have s: "Work_step recorder (Running both0) (Returned quit0)"
    by (simp add: quit0_def b(3))
  have e: "all_empty (heap quit0) (wm (worker quit0))"
    using NewWorkerMetrics_empty [of heap0]
    by (simp add: quit0_def both0_def Stop_def state_after_def fresh0_def log_entry_to_def
        NewWorker_worker NewWorker_heap)
  from b s e show ?thesis
    by (simp add: quit0_def log_entry_to_def)
qed

text \<open>A returned or panicked loop makes no further iteration.\<close>

lemma Work_step_Running: "Work_step ops l l' \<Longrightarrow> \<exists>st. l = Running st"
  by (auto elim: Work_step.cases)

subsection \<open>Imports are counted when attempted\<close>

text \<open>
  C10. Every call to \<open>ImportMetric\<close> returns and adds exactly one to \<open>imported\<close>, whatever
  the type of the metric and whatever \<open>Combine\<close> answers: the counter counts the imports
  attempted, not the merges that succeeded.
\<close>

theorem imported_counts_attempts:
  "returned (ImportMetric ops st j) \<and>
   imported (worker (state_after (ImportMetric ops st j))) = imported (worker st) + 1"
proof -
  have "imported (worker (state_after (ImportMetric ops st j))) = imported (worker st) + 1"
    by (subst ImportMetric_worker) simp
  then show ?thesis
    by (simp add: ImportMetric_returned)
qed

text \<open>An import of an unsupported type, and an import whose state \<open>Combine\<close> rejects.\<close>

theorem imported_counts_attempts_witness:
  "Type (MetricKey_J counter_import) \<noteq> ''set'' \<and>
   imported (worker (state_after (ImportMetric recorder fresh0 counter_import))) = 1 \<and>
   snd (Set_Combine recorder (NewSet recorder ''users'' []) (Value_J users_bad)) \<noteq> None \<and>
   imported (worker (state_after (ImportMetric recorder fresh0 users_bad))) = 1"
  using imported_counts_attempts [of recorder fresh0 counter_import]
    imported_counts_attempts [of recorder fresh0 users_bad]
  by (simp add: fresh0_def NewWorker_worker counter_import_def key_requests_def recorder_def
      users_bad_def)


end
